theory Spec2Isabelle
  imports Complex_Main "HOL-Library.AList"
begin

section \<open>The Wikipedia dataset fetcher (scripts/fetch-wikipedia.py)\<close>

text \<open>
  A shallow embedding of \<^verbatim>\<open>scripts/fetch-wikipedia.py\<close>. The script streams the
  records of a dataset, drops the short ones, writes every other one as a JSON file
  of its own under a name that no file of the output directory has yet, and stops on
  a byte or count target.

  Conventions of the model:
  \<^item> a Python \<^verbatim>\<open>str\<close> is the list of its code points, so that \<^verbatim>\<open>len\<close> counts code
    points and \<^verbatim>\<open>estimate_size\<close> counts the bytes of the UTF-8 encoding. The strings
    are the scalar values the dataset decodes (no lone surrogate), so that encoding
    them does not fail;
  \<^item> a Python \<^verbatim>\<open>int\<close> is an \<^typ>\<open>int\<close>; a Python \<^verbatim>\<open>float\<close> is the real number it
    denotes. The products by 1024 are exact in binary floating point (short of an
    overflow), Python compares an \<^verbatim>\<open>int\<close> with a \<^verbatim>\<open>float\<close> exactly, and the quotients
    of the statistics are not rounded here;
  \<^item> an optional argument, or a key a record may lack, is an \<^typ>\<open>'a option\<close>;
  \<^item> an exception is a value of the type \<open>error\<close>, and every function that may
    raise returns a sum (\<open>Inl\<close> the exception);
  \<^item> the output directory is an association list from file names to contents, in
    the order the files were created, and \<open>None\<close> while the directory does not
    exist. Operations of the file system themselves do not fail (no \<^verbatim>\<open>OSError\<close>);
  \<^item> the dataset is a finite list of pulls, each yielding a record or raising;
  \<^item> \<^verbatim>\<open>print\<close> is left out, the expressions it prints are not.
\<close>

subsection \<open>Strings\<close>

type_synonym pystr = "nat list"

definition lit :: "string \<Rightarrow> pystr" where
  "lit s = map of_char s"

text \<open>\<^verbatim>\<open>len(text.encode('utf-8'))\<close>: the width of a code point in UTF-8.\<close>

definition utf8_width :: "nat \<Rightarrow> nat" where
  "utf8_width c = (if c < 0x80 then 1 else if c < 0x800 then 2
                   else if c < 0x10000 then 3 else 4)"

definition estimate_size :: "pystr \<Rightarrow> int" where
  "estimate_size text = int (sum_list (map utf8_width text))"

text \<open>
  \<^verbatim>\<open>str.isspace\<close> on one code point, which is what \<^verbatim>\<open>str.strip()\<close> removes at both ends:
  the ASCII white space and separators, NEL, NBSP and the Unicode spaces.
\<close>

definition py_isspace :: "nat \<Rightarrow> bool" where
  "py_isspace c \<longleftrightarrow>
     (0x09 \<le> c \<and> c \<le> 0x0D) \<or> (0x1C \<le> c \<and> c \<le> 0x20) \<or> c = 0x85 \<or> c = 0xA0 \<or>
     c = 0x1680 \<or> (0x2000 \<le> c \<and> c \<le> 0x200A) \<or> c = 0x2028 \<or> c = 0x2029 \<or>
     c = 0x202F \<or> c = 0x205F \<or> c = 0x3000"

definition strip :: "pystr \<Rightarrow> pystr" where
  "strip s = rev (dropWhile py_isspace (rev (dropWhile py_isspace s)))"

text \<open>\<^verbatim>\<open>s.replace(old, new)\<close> for one-character \<^verbatim>\<open>old\<close> and \<^verbatim>\<open>new\<close>.\<close>

definition py_replace :: "pystr \<Rightarrow> nat \<Rightarrow> nat \<Rightarrow> pystr" where
  "py_replace s old new = map (\<lambda>c. if c = old then new else c) s"

text \<open>\<^verbatim>\<open>str(n)\<close> of a natural number, as the f-string formats the counter.\<close>

fun str_of_nat :: "nat \<Rightarrow> pystr" where
  "str_of_nat n = (if n < 10 then [48 + n] else str_of_nat (n div 10) @ [48 + n mod 10])"

declare str_of_nat.simps [simp del]

subsection \<open>clean_article_title\<close>

text \<open>The characters \<^verbatim>\<open>/ \ : * ? " < > |\<close>, in the order of the source's list.\<close>

definition unsafe_chars :: "nat list" where
  "unsafe_chars = [47, 92, 58, 42, 63, 34, 60, 62, 124]"

definition clean_article_title :: "pystr \<Rightarrow> pystr" where
  "clean_article_title title =
     fold (\<lambda>char cleaned. py_replace cleaned char 95) unsafe_chars title"

subsection \<open>Records and documents\<close>

datatype error =
    ValueError string
  | KeyError string
  | TypeError
  | ZeroDivisionError
  | KeyboardInterrupt
  | SystemExit nat
  | SourceError

text \<open>
  A record of the dataset. \<^verbatim>\<open>title\<close> is subscripted without a check and belongs to
  every record; \<^verbatim>\<open>text\<close>, \<^verbatim>\<open>url\<close> and \<^verbatim>\<open>id\<close> are read through \<^verbatim>\<open>.get\<close> and may be
  absent.
\<close>

record article =
  art_id :: "pystr option"
  art_url :: "pystr option"
  art_title :: pystr
  art_text :: "pystr option"

record metadata =
  md_categories :: "pystr list"
  md_url :: pystr
  md_id :: pystr

record document =
  doc_title :: pystr
  doc_content :: pystr
  doc_metadata :: metadata

text \<open>\<^verbatim>\<open>article.get(key, '')\<close>.\<close>

definition get_or_empty :: "pystr option \<Rightarrow> pystr" where
  "get_or_empty v = (case v of None \<Rightarrow> [] | Some s \<Rightarrow> s)"

definition convert_to_rag_format :: "article \<Rightarrow> error + document" where
  "convert_to_rag_format a =
     (case art_text a of
        None \<Rightarrow> Inl (KeyError ''text'')
      | Some text \<Rightarrow>
          Inr \<lparr>doc_title = art_title a,
               doc_content = text,
               doc_metadata = \<lparr>md_categories = [],
                               md_url = get_or_empty (art_url a),
                               md_id = get_or_empty (art_id a)\<rparr>\<rparr>)"

subsection \<open>The output directory\<close>

record stats =
  stats_articles_saved :: int
  stats_articles_skipped :: int
  stats_total_size_mb :: real
  stats_average_article_size_kb :: real
  stats_output_directory :: pystr
  stats_language :: pystr

datatype content = Article document | Metadata stats

type_synonym directory = "(pystr \<times> content) list"

definition names :: "directory \<Rightarrow> pystr set" where
  "names d = fst ` set d"

text \<open>\<^verbatim>\<open>filepath.exists()\<close>.\<close>

definition exists :: "directory \<Rightarrow> pystr \<Rightarrow> bool" where
  "exists d filename \<longleftrightarrow> filename \<in> set (map fst d)"

text \<open>
  \<^verbatim>\<open>open(filepath, 'w')\<close> followed by \<^verbatim>\<open>json.dump\<close>: a new file is created, an existing
  one is replaced by the new content.
\<close>

definition write_file :: "directory \<Rightarrow> pystr \<Rightarrow> content \<Rightarrow> directory" where
  "write_file d filename c = AList.update filename c d"

text \<open>\<^verbatim>\<open>f"{safe_title}_{counter}.json"\<close>.\<close>

definition suffixed :: "pystr \<Rightarrow> nat \<Rightarrow> pystr" where
  "suffixed safe_title counter = safe_title @ lit ''_'' @ str_of_nat counter @ lit ''.json''"

text \<open>
  The decimal numeral of a number determines it, so the suffixed names of one title
  are pairwise distinct and only finitely many of them are in a directory.
\<close>

lemma str_of_nat_nonempty: "str_of_nat n \<noteq> []"
  by (subst str_of_nat.simps) simp

lemma str_of_nat_inj: "str_of_nat m = str_of_nat n \<Longrightarrow> m = n"
proof (induction m arbitrary: n rule: str_of_nat.induct)
  case (1 m)
  show ?case
  proof (cases "m < 10")
    case True
    then have m: "str_of_nat m = [48 + m]" by (subst str_of_nat.simps) simp
    show ?thesis
    proof (cases "n < 10")
      case True
      then have "str_of_nat n = [48 + n]" by (subst str_of_nat.simps) simp
      with m "1.prems" show ?thesis by simp
    next
      case False
      then have "str_of_nat n = str_of_nat (n div 10) @ [48 + n mod 10]"
        by (subst str_of_nat.simps) simp
      with m "1.prems" have "str_of_nat (n div 10) = []" by simp
      then show ?thesis by (simp add: str_of_nat_nonempty)
    qed
  next
    case False
    then have m: "str_of_nat m = str_of_nat (m div 10) @ [48 + m mod 10]"
      by (subst str_of_nat.simps) simp
    show ?thesis
    proof (cases "n < 10")
      case True
      then have "str_of_nat n = [48 + n]" by (subst str_of_nat.simps) simp
      with m "1.prems" have "str_of_nat (m div 10) = []" by simp
      then show ?thesis by (simp add: str_of_nat_nonempty)
    next
      case n: False
      then have "str_of_nat n = str_of_nat (n div 10) @ [48 + n mod 10]"
        by (subst str_of_nat.simps) simp
      with m "1.prems" have eq: "str_of_nat (m div 10) = str_of_nat (n div 10)"
        and md: "m mod 10 = n mod 10" by simp_all
      from "1.IH" [OF False eq] have "m div 10 = n div 10" .
      with md show ?thesis by (metis div_mult_mod_eq)
    qed
  qed
qed

lemma suffixed_inj: "suffixed t j = suffixed t k \<Longrightarrow> j = k"
  by (simp add: suffixed_def str_of_nat_inj)

lemma finite_taken: "finite {k. suffixed t k \<in> names d}"
proof -
  have "inj (suffixed t)" by (rule injI) (rule suffixed_inj)
  moreover have "finite (names d)" by (simp add: names_def)
  ultimately have "finite (suffixed t -` names d)" by (rule finite_vimageI [rotated])
  then show ?thesis by (simp add: vimage_def)
qed

text \<open>
  The loop that looks for a free name (lines 164 to 168): \<^verbatim>\<open>filename\<close> is the
  candidate under test and \<^verbatim>\<open>counter\<close> the suffix of the next one. It ends because
  each round leaves one taken candidate behind.
\<close>

function probe :: "directory \<Rightarrow> pystr \<Rightarrow> pystr \<Rightarrow> nat \<Rightarrow> pystr" where
  "probe d safe_title filename counter =
     (if exists d filename then probe d safe_title (suffixed safe_title counter) (counter + 1)
      else filename)"
  by pat_completeness auto
termination
proof (relation "measure (\<lambda>(d, t, f, c).
          card {k. c \<le> k \<and> suffixed t k \<in> names d} + (if f \<in> names d then 1 else 0))")
  show "wf (measure (\<lambda>(d, t, f, c).
          card {k. c \<le> k \<and> suffixed t k \<in> names d} + (if f \<in> names d then 1 else 0)))"
    by simp
next
  fix d :: directory and safe_title filename :: pystr and counter :: nat
  assume ex: "exists d filename"
  let ?A = "{k. counter \<le> k \<and> suffixed safe_title k \<in> names d}"
  let ?B = "{k. counter + 1 \<le> k \<and> suffixed safe_title k \<in> names d}"
  have fin: "finite ?A" by (rule finite_subset [OF _ finite_taken [of safe_title d]]) auto
  have "card ?B + (if suffixed safe_title counter \<in> names d then 1 else 0) \<le> card ?A"
  proof (cases "suffixed safe_title counter \<in> names d")
    case True
    then have "?A = insert counter ?B" by (auto simp: le_Suc_eq dest: suffixed_inj)
    moreover have "counter \<notin> ?B" by simp
    moreover have "finite ?B" by (rule finite_subset [OF _ fin]) auto
    ultimately show ?thesis using True by simp
  next
    case False
    have "?B \<subseteq> ?A" by auto
    then have "card ?B \<le> card ?A" by (rule card_mono [OF fin])
    with False show ?thesis by simp
  qed
  moreover from ex have "filename \<in> names d" by (simp add: exists_def names_def)
  ultimately show "((d, safe_title, suffixed safe_title counter, counter + 1),
          (d, safe_title, filename, counter)) \<in> measure (\<lambda>(d, t, f, c).
          card {k. c \<le> k \<and> suffixed t k \<in> names d} + (if f \<in> names d then 1 else 0))"
    by simp
qed

declare probe.simps [simp del]

subsection \<open>Truth values and division\<close>

text \<open>
  \<^verbatim>\<open>if size_mb\<close> and \<^verbatim>\<open>if article_count\<close>: \<^verbatim>\<open>None\<close> and zero are false, every other
  number is true.
\<close>

definition truthy_float :: "real option \<Rightarrow> bool" where
  "truthy_float x = (case x of None \<Rightarrow> False | Some v \<Rightarrow> v \<noteq> 0)"

definition truthy_int :: "int option \<Rightarrow> bool" where
  "truthy_int x = (case x of None \<Rightarrow> False | Some v \<Rightarrow> v \<noteq> 0)"

text \<open>Python's \<^verbatim>\<open>a / b\<close> on numbers, and on a divisor that may be \<^verbatim>\<open>None\<close>.\<close>

definition truediv :: "real \<Rightarrow> real \<Rightarrow> error + real" where
  "truediv a b = (if b = 0 then Inl ZeroDivisionError else Inr (a / b))"

definition truediv_opt :: "real \<Rightarrow> real option \<Rightarrow> error + real" where
  "truediv_opt a b = (case b of None \<Rightarrow> Inl TypeError | Some v \<Rightarrow> truediv a v)"

definition ebind :: "error + 'a \<Rightarrow> ('a \<Rightarrow> error + 'b) \<Rightarrow> error + 'b" where
  "ebind m f = (case m of Inl e \<Rightarrow> Inl e | Inr x \<Rightarrow> f x)"

subsection \<open>The streaming loop of fetch_wikipedia_dataset\<close>

text \<open>
  The variables of the loop, with the files of the output directory and the number
  of records the dataset was asked for so far.
\<close>

record state =
  total_size_bytes :: int
  articles_saved :: int
  articles_skipped :: int
  files :: directory
  pulled :: nat

text \<open>\<^verbatim>\<open>target_size_bytes = size_mb * 1024 * 1024 if size_mb else None\<close>.\<close>

definition target_size_bytes :: "real option \<Rightarrow> real option" where
  "target_size_bytes size_mb =
     (case size_mb of None \<Rightarrow> None
      | Some v \<Rightarrow> if v \<noteq> 0 then Some (v * 1024 * 1024) else None)"

text \<open>The two stop checks (lines 140 and 142).\<close>

definition size_reached :: "real option \<Rightarrow> int \<Rightarrow> bool" where
  "size_reached size_mb total_bytes \<longleftrightarrow>
     truthy_float size_mb \<and>
     (case target_size_bytes size_mb of None \<Rightarrow> False | Some t \<Rightarrow> t \<le> of_int total_bytes)"

definition count_reached :: "int option \<Rightarrow> int \<Rightarrow> bool" where
  "count_reached article_count saved \<longleftrightarrow>
     truthy_int article_count \<and>
     (case article_count of None \<Rightarrow> False | Some n \<Rightarrow> n \<le> saved)"

text \<open>
  The progress update (lines 180 to 187), on every tenth saved article: the percentage
  it prints, or the exception its division raises.
\<close>

definition progress_update :: "real option \<Rightarrow> int option \<Rightarrow> state \<Rightarrow> error + real option" where
  "progress_update size_mb article_count s =
     (if articles_saved s mod 10 = 0 then
        (if truthy_float size_mb then
           ebind (truediv_opt (of_int (total_size_bytes s)) (target_size_bytes size_mb))
             (\<lambda>q. Inr (Some (q * 100)))
         else
           ebind (truediv_opt (of_int (articles_saved s)) (map_option of_int article_count))
             (\<lambda>q. Inr (Some (q * 100))))
      else Inr None)"

datatype flow = Continue | Break | Raise error

text \<open>The body of the loop (lines 139 to 187) on the record just pulled.\<close>

definition process_article :: "real option \<Rightarrow> int option \<Rightarrow> article \<Rightarrow> state \<Rightarrow> flow \<times> state" where
  "process_article size_mb article_count a s =
     (if size_reached size_mb (total_size_bytes s) then (Break, s)
      else if count_reached article_count (articles_saved s) then (Break, s)
      else case art_text a of
        None \<Rightarrow> (Continue, s\<lparr>articles_skipped := articles_skipped s + 1\<rparr>)
      | Some text \<Rightarrow>
          if text = [] \<or> length (strip text) < 100
          then (Continue, s\<lparr>articles_skipped := articles_skipped s + 1\<rparr>)
          else if length text < 500
          then (Continue, s\<lparr>articles_skipped := articles_skipped s + 1\<rparr>)
          else case convert_to_rag_format a of
            Inl e \<Rightarrow> (Raise e, s)
          | Inr rag_article \<Rightarrow>
              (let safe_title = clean_article_title (art_title a);
                   filename = probe (files s) safe_title (safe_title @ lit ''.json'') 1;
                   s1 = s\<lparr>files := write_file (files s) filename (Article rag_article)\<rparr>;
                   article_size = estimate_size text;
                   s2 = s1\<lparr>total_size_bytes := total_size_bytes s1 + article_size,
                          articles_saved := articles_saved s1 + 1\<rparr>
               in case progress_update size_mb article_count s2 of
                    Inl e \<Rightarrow> (Raise e, s2)
                  | Inr _ \<Rightarrow> (Continue, s2)))"

text \<open>
  What the dataset does when it is asked for its next record: it yields one, or the
  pull raises (an interrupt delivered while it waits, or a failure of the source).
\<close>

datatype item = Yields article | Raises error

text \<open>
  \<^verbatim>\<open>for article in dataset\<close>: the record is pulled first, then the body runs. The
  result is the exception that ended the loop, if one did, and the last state.
\<close>

fun stream_loop :: "real option \<Rightarrow> int option \<Rightarrow> item list \<Rightarrow> state \<Rightarrow> error option \<times> state" where
  "stream_loop size_mb article_count [] s = (None, s)"
| "stream_loop size_mb article_count (Raises e # dataset) s =
     (Some e, s\<lparr>pulled := pulled s + 1\<rparr>)"
| "stream_loop size_mb article_count (Yields a # dataset) s =
     (case process_article size_mb article_count a (s\<lparr>pulled := pulled s + 1\<rparr>) of
        (Break, s') \<Rightarrow> (None, s')
      | (Continue, s') \<Rightarrow> stream_loop size_mb article_count dataset s'
      | (Raise e, s') \<Rightarrow> (Some e, s'))"

subsection \<open>fetch_wikipedia_dataset\<close>

text \<open>
  The world outside the function: the output directory, if it exists, and the number
  of records asked of the dataset. \<open>hub\<close> gives the stream of a configuration and a
  split, or \<open>None\<close> when \<^verbatim>\<open>load_dataset\<close> fails.
\<close>

record world =
  outdir :: "directory option"
  pulls :: nat

type_synonym hub = "pystr \<Rightarrow> pystr \<Rightarrow> item list option"

text \<open>\<^verbatim>\<open>output_dir.mkdir(parents=True, exist_ok=True)\<close>.\<close>

definition mkdir :: "world \<Rightarrow> world" where
  "mkdir w = (case outdir w of None \<Rightarrow> w\<lparr>outdir := Some []\<rparr> | Some d \<Rightarrow> w)"

definition initial_state :: "world \<Rightarrow> state" where
  "initial_state w =
     \<lparr>total_size_bytes = 0, articles_saved = 0, articles_skipped = 0,
      files = (case outdir w of None \<Rightarrow> [] | Some d \<Rightarrow> d), pulled = pulls w\<rparr>"

definition world_of :: "state \<Rightarrow> world" where
  "world_of s = \<lparr>outdir = Some (files s), pulls = pulled s\<rparr>"

text \<open>The final statistics (lines 190 to 200).\<close>

definition final_statistics :: "state \<Rightarrow> pystr \<Rightarrow> pystr \<Rightarrow> error + stats" where
  "final_statistics s output_dir language =
     ebind (truediv (of_int (total_size_bytes s)) (1024 * 1024)) (\<lambda>final_size_mb.
     ebind (if articles_saved s > 0
            then ebind (truediv (of_int (total_size_bytes s)) (of_int (articles_saved s)))
                   (\<lambda>q. truediv q 1024)
            else Inr 0) (\<lambda>avg_size_kb.
     Inr \<lparr>stats_articles_saved = articles_saved s,
          stats_articles_skipped = articles_skipped s,
          stats_total_size_mb = final_size_mb,
          stats_average_article_size_kb = avg_size_kb,
          stats_output_directory = output_dir,
          stats_language = language\<rparr>))"

definition fetch_wikipedia_dataset ::
  "hub \<Rightarrow> world \<Rightarrow> pystr \<Rightarrow> real option \<Rightarrow> int option \<Rightarrow> pystr \<Rightarrow> pystr
     \<Rightarrow> (error + stats) \<times> world" where
  "fetch_wikipedia_dataset hub w output_dir size_mb article_count language split =
     (if size_mb = None \<and> article_count = None
      then (Inl (ValueError ''Must specify either --size-mb or --articles''), w)
      else if size_mb \<noteq> None \<and> article_count \<noteq> None
      then (Inl (ValueError ''Cannot specify both --size-mb and --articles''), w)
      else
        (let w1 = mkdir w in
         case hub (lit ''20231101.'' @ language) split of
           None \<Rightarrow> (Inl (SystemExit 1), w1)
         | Some dataset \<Rightarrow>
             (case stream_loop size_mb article_count dataset (initial_state w1) of
                (Some e, s) \<Rightarrow> (Inl e, world_of s)
              | (None, s) \<Rightarrow> (final_statistics s output_dir language, world_of s))))"

subsection \<open>main\<close>




section \<open>Notions used to state the properties\<close>

text \<open>
  The state after an admissible record was saved: the new file stands last in the
  directory, and the two counters have moved.
\<close>

definition accepted_state :: "state \<Rightarrow> article \<Rightarrow> pystr \<Rightarrow> document \<Rightarrow> state" where
  "accepted_state s a text rag_article =
     s\<lparr>files := files s @ [(probe (files s) (clean_article_title (art_title a))
                              (clean_article_title (art_title a) @ lit ''.json'') 1,
                            Article rag_article)],
       total_size_bytes := total_size_bytes s + estimate_size text,
       articles_saved := articles_saved s + 1\<rparr>"

text \<open>
  An admissible record, in the words of the filter's contract: the body text is
  there, has at least 100 characters once trimmed and at least 500 untrimmed.
\<close>

definition admissible :: "article \<Rightarrow> bool" where
  "admissible a =
     (case art_text a of None \<Rightarrow> False
      | Some body \<Rightarrow> 100 \<le> length (strip body) \<and> 500 \<le> length body)"

text \<open>The records a dataset yields, in order.\<close>

fun offered :: "item list \<Rightarrow> article list" where
  "offered [] = []"
| "offered (Yields a # dataset) = a # offered dataset"
| "offered (Raises e # dataset) = offered dataset"

text \<open>
  The body text of a record and the document \<open>convert_to_rag_format\<close> makes of a
  record that has one.
\<close>

definition body_of :: "article \<Rightarrow> pystr" where
  "body_of a = (case art_text a of None \<Rightarrow> [] | Some body \<Rightarrow> body)"

definition rag_of :: "article \<Rightarrow> document" where
  "rag_of a =
     \<lparr>doc_title = art_title a, doc_content = body_of a,
      doc_metadata = \<lparr>md_categories = [], md_url = get_or_empty (art_url a),
                      md_id = get_or_empty (art_id a)\<rparr>\<rparr>"

text \<open>The state after the record \<open>a\<close> was saved.\<close>

definition saved_state :: "state \<Rightarrow> article \<Rightarrow> state" where
  "saved_state s a = accepted_state s a (body_of a) (rag_of a)"

text \<open>The bytes a file counts for: \<open>estimate_size\<close> of the content field of its document.\<close>

fun content_size :: "pystr \<times> content \<Rightarrow> int" where
  "content_size (filename, Article d) = estimate_size (doc_content d)"
| "content_size (filename, Metadata st) = 0"

text \<open>
  A record for the examples: no id, no url, the given title and a body of \<open>n\<close>
  letters \<^verbatim>\<open>a\<close>.
\<close>

definition sample :: "string \<Rightarrow> nat \<Rightarrow> article" where
  "sample t n = \<lparr>art_id = None, art_url = None, art_title = lit t,
                 art_text = Some (replicate n 97)\<rparr>"

text \<open>
  The same record with a body of \<open>n\<close> copies of the ideograph U+4E2D, three bytes
  each in UTF-8.
\<close>

definition wide_sample :: "string \<Rightarrow> nat \<Rightarrow> article" where
  "wide_sample t n = \<lparr>art_id = None, art_url = None, art_title = lit t,
                      art_text = Some (replicate n 0x4E2D)\<rparr>"

text \<open>
  The bytes of one code point in UTF-8, as RFC 3629 lays them out: the encoding whose
  length \<^verbatim>\<open>len(text.encode('utf-8'))\<close> counts.
\<close>

definition utf8_bytes :: "nat \<Rightarrow> nat list" where
  "utf8_bytes c =
     (if c < 0x80 then [c]
      else if c < 0x800 then [0xC0 + c div 64, 0x80 + c mod 64]
      else if c < 0x10000 then [0xE0 + c div 4096, 0x80 + c div 64 mod 64, 0x80 + c mod 64]
      else [0xF0 + c div 262144, 0x80 + c div 4096 mod 64, 0x80 + c div 64 mod 64,
            0x80 + c mod 64])"

text \<open>
  A degenerate pair of targets: one of them is zero and the other is not given.
\<close>

definition degenerate :: "real option \<Rightarrow> int option \<Rightarrow> bool" where
  "degenerate size_mb article_count \<longleftrightarrow>
     size_mb = Some 0 \<and> article_count = None \<or> size_mb = None \<and> article_count = Some 0"

text \<open>
  The name lines 159 to 168 choose for a document of this title in this directory.
\<close>

definition free_name :: "directory \<Rightarrow> pystr \<Rightarrow> pystr" where
  "free_name d title =
     probe d (clean_article_title title) (clean_article_title title @ lit ''.json'') 1"

section \<open>Properties\<close>

subsection \<open>The free name and the loop body\<close>

lemma probe_free: "\<not> exists d filename \<Longrightarrow> probe d safe_title filename counter = filename"
  by (subst probe.simps) simp

lemma probe_taken:
  "exists d filename \<Longrightarrow>
     probe d safe_title filename counter = probe d safe_title (suffixed safe_title counter) (counter + 1)"
  by (subst probe.simps) simp

lemma probe_not_exists: "\<not> exists d (probe d safe_title filename counter)"
proof (induction d safe_title filename counter rule: probe.induct)
  case (1 d safe_title filename counter)
  show ?case
  proof (cases "exists d filename")
    case True
    with "1.IH" show ?thesis by (simp add: probe_taken)
  next
    case False
    then show ?thesis by (simp add: probe_free)
  qed
qed

lemma write_file_new: "\<not> exists d filename \<Longrightarrow> write_file d filename c = d @ [(filename, c)]"
  unfolding write_file_def exists_def
  by (induction d) auto

lemma process_article_break:
  "size_reached size_mb (total_size_bytes s) \<or> count_reached article_count (articles_saved s) \<Longrightarrow>
     process_article size_mb article_count a s = (Break, s)"
  by (auto simp: process_article_def)

lemma process_article_skip:
  assumes "\<not> size_reached size_mb (total_size_bytes s)"
    and "\<not> count_reached article_count (articles_saved s)"
    and "case art_text a of None \<Rightarrow> True
         | Some text \<Rightarrow> length (strip text) < 100 \<or> length text < 500"
  shows "process_article size_mb article_count a s =
           (Continue, s\<lparr>articles_skipped := articles_skipped s + 1\<rparr>)"
  using assms by (auto simp: process_article_def split: option.splits)

lemma strip_Nil: "strip [] = []"
  by (simp add: strip_def)

lemma process_article_save:
  assumes "\<not> size_reached size_mb (total_size_bytes s)"
    and "\<not> count_reached article_count (articles_saved s)"
    and "art_text a = Some text" and "100 \<le> length (strip text)" and "500 \<le> length text"
    and "convert_to_rag_format a = Inr rag_article"
  shows "process_article size_mb article_count a s =
           (case progress_update size_mb article_count (accepted_state s a text rag_article) of
              Inl e \<Rightarrow> Raise e | Inr p \<Rightarrow> Continue,
            accepted_state s a text rag_article)"
proof -
  from assms(4) have "text \<noteq> []" by (auto simp: strip_Nil)
  with assms show ?thesis
    by (simp add: process_article_def Let_def accepted_state_def write_file_new probe_not_exists
          split: sum.splits)
qed

lemma convert_Some:
  "art_text a = Some text \<Longrightarrow>
     convert_to_rag_format a =
       Inr \<lparr>doc_title = art_title a, doc_content = text,
            doc_metadata = \<lparr>md_categories = [], md_url = get_or_empty (art_url a),
                            md_id = get_or_empty (art_id a)\<rparr>\<rparr>"
  by (simp add: convert_to_rag_format_def)

lemma strip_replicate: "\<not> py_isspace c \<Longrightarrow> strip (replicate n c) = replicate n c"
  by (cases n) (simp_all add: strip_def replicate_append_same)

lemma estimate_size_replicate: "estimate_size (replicate n c) = int n * int (utf8_width c)"
  by (simp add: estimate_size_def sum_list_replicate)

subsection \<open>The streaming loop\<close>

lemma process_article_reject:
  assumes "\<not> size_reached size_mb (total_size_bytes s)"
    and "\<not> count_reached article_count (articles_saved s)"
    and "\<not> admissible a"
  shows "process_article size_mb article_count a s =
           (Continue, s\<lparr>articles_skipped := articles_skipped s + 1\<rparr>)"
proof (rule process_article_skip [OF assms(1,2)])
  from assms(3) show "case art_text a of None \<Rightarrow> True
      | Some body \<Rightarrow> length (strip body) < 100 \<or> length body < 500"
    by (auto simp: admissible_def split: option.splits)
qed

lemma process_article_admit:
  assumes "\<not> size_reached size_mb (total_size_bytes s)"
    and "\<not> count_reached article_count (articles_saved s)"
    and "admissible a"
  shows "process_article size_mb article_count a s =
           (case progress_update size_mb article_count (saved_state s a) of
              Inl e \<Rightarrow> Raise e | Inr p \<Rightarrow> Continue,
            saved_state s a)"
proof -
  from assms(3) obtain body where t: "art_text a = Some body" "100 \<le> length (strip body)"
      "500 \<le> length body"
    by (auto simp: admissible_def split: option.splits)
  have b: "body_of a = body" using t(1) by (simp add: body_of_def)
  have c: "convert_to_rag_format a = Inr (rag_of a)"
    using convert_Some [OF t(1)] by (simp add: rag_of_def b)
  show ?thesis
    using process_article_save [OF assms(1,2) t c] by (simp add: saved_state_def b)
qed

lemma saved_state_simps:
  "total_size_bytes (saved_state s a) = total_size_bytes s + estimate_size (body_of a)"
  "articles_saved (saved_state s a) = articles_saved s + 1"
  "articles_skipped (saved_state s a) = articles_skipped s"
  "pulled (saved_state s a) = pulled s"
  "files (saved_state s a) =
     files s @ [(probe (files s) (clean_article_title (art_title a))
                   (clean_article_title (art_title a) @ lit ''.json'') 1, Article (rag_of a))]"
  by (simp_all add: saved_state_def accepted_state_def)

lemma progress_count_ok:
  "n \<noteq> 0 \<Longrightarrow> \<exists>p. progress_update None (Some n) s = Inr p"
  by (simp add: progress_update_def truthy_float_def truediv_opt_def truediv_def ebind_def)

lemma progress_size_ok:
  "t \<noteq> 0 \<Longrightarrow> \<exists>p. progress_update (Some t) None s = Inr p"
  by (simp add: progress_update_def truthy_float_def truediv_opt_def truediv_def ebind_def
        target_size_bytes_def)

lemma size_reached_None: "\<not> size_reached None b"
  by (simp add: size_reached_def truthy_float_def)

lemma count_reached_None: "\<not> count_reached None b"
  by (simp add: count_reached_def truthy_int_def)

lemma count_reached_Some: "n \<noteq> 0 \<Longrightarrow> count_reached (Some n) k \<longleftrightarrow> n \<le> k"
  by (simp add: count_reached_def truthy_int_def)

lemma size_reached_Some:
  "t \<noteq> 0 \<Longrightarrow> size_reached (Some t) b \<longleftrightarrow> t * 1024 * 1024 \<le> real_of_int b"
  by (simp add: size_reached_def truthy_float_def target_size_bytes_def)

lemma process_article_cases:
  "process_article size_mb article_count a s = (Break, s) \<or>
   process_article size_mb article_count a s =
     (Continue, s\<lparr>articles_skipped := articles_skipped s + 1\<rparr>) \<or>
   admissible a \<and>
   (\<exists>f. f \<noteq> Break \<and> process_article size_mb article_count a s = (f, saved_state s a))"
proof (cases "size_reached size_mb (total_size_bytes s) \<or>
    count_reached article_count (articles_saved s)")
  case True
  then show ?thesis by (simp add: process_article_break)
next
  case False
  then have nr: "\<not> size_reached size_mb (total_size_bytes s)"
      "\<not> count_reached article_count (articles_saved s)" by simp_all
  show ?thesis
  proof (cases "admissible a")
    case True
    show ?thesis
      by (cases "progress_update size_mb article_count (saved_state s a)")
        (simp_all add: process_article_admit [OF nr True] True)
  next
    case False
    then show ?thesis by (simp add: process_article_reject [OF nr False])
  qed
qed

lemma loop_accounting:
  "stream_loop size_mb article_count dataset s = (r, s') \<Longrightarrow>
     \<exists>new. files s' = files s @ new \<and>
           articles_saved s' = articles_saved s + int (length new) \<and>
           total_size_bytes s' = total_size_bytes s + sum_list (map content_size new)"
proof (induction dataset arbitrary: s)
  case Nil
  then show ?case by simp
next
  case (Cons it dataset)
  show ?case
  proof (cases it)
    case (Raises e)
    with Cons.prems show ?thesis by auto
  next
    case (Yields a)
    let ?s1 = "s\<lparr>pulled := pulled s + 1\<rparr>"
    let ?P = "\<lambda>s0 new. files s' = files s0 @ new \<and>
           articles_saved s' = articles_saved s0 + int (length new) \<and>
           total_size_bytes s' = total_size_bytes s0 + sum_list (map content_size new)"
    from process_article_cases [of size_mb article_count a ?s1]
    consider (brk) "process_article size_mb article_count a ?s1 = (Break, ?s1)"
      | (skip) "process_article size_mb article_count a ?s1 =
          (Continue, ?s1\<lparr>articles_skipped := articles_skipped ?s1 + 1\<rparr>)"
      | (save) f where "f \<noteq> Break"
          "process_article size_mb article_count a ?s1 = (f, saved_state ?s1 a)"
      by blast
    then show ?thesis
    proof cases
      case brk
      with Cons.prems Yields have "s' = ?s1" by simp
      then have "?P s []" by simp
      then show ?thesis by blast
    next
      case skip
      let ?s2 = "?s1\<lparr>articles_skipped := articles_skipped ?s1 + 1\<rparr>"
      from skip Cons.prems Yields
      have "stream_loop size_mb article_count dataset ?s2 = (r, s')" by simp
      from Cons.IH [OF this] obtain new where "?P ?s2 new" by blast
      then have "?P s new" by simp
      then show ?thesis by blast
    next
      case save
      let ?s2 = "saved_state ?s1 a"
      have "\<exists>new. ?P ?s2 new"
      proof (cases f)
        case Continue
        with save Cons.prems Yields
        have "stream_loop size_mb article_count dataset ?s2 = (r, s')" by simp
        from Cons.IH [OF this] show ?thesis .
      next
        case Break
        with save show ?thesis by simp
      next
        case (Raise e)
        with save Cons.prems Yields have "s' = ?s2" by simp
        then have "?P ?s2 []" by simp
        then show ?thesis by blast
      qed
      then obtain new where n: "?P ?s2 new" by blast
      let ?x = "(probe (files ?s1) (clean_article_title (art_title a))
                   (clean_article_title (art_title a) @ lit ''.json'') 1, Article (rag_of a))"
      from n have "?P s (?x # new)"
        by (simp add: saved_state_simps rag_of_def)
      then show ?thesis by blast
    qed
  qed
qed

lemma count_loop:
  assumes n: "0 < n"
  shows "articles_saved s \<le> n \<Longrightarrow> stream_loop None (Some n) dataset s = (None, s') \<Longrightarrow>
     articles_saved s' =
       min n (articles_saved s + int (length (filter admissible (offered dataset))))"
proof (induction dataset arbitrary: s)
  case Nil
  then show ?case by simp
next
  case (Cons it dataset)
  show ?case
  proof (cases it)
    case (Raises e)
    with Cons.prems show ?thesis by simp
  next
    case (Yields a)
    let ?s1 = "s\<lparr>pulled := pulled s + 1\<rparr>"
    from n have n0: "n \<noteq> 0" by simp
    show ?thesis
    proof (cases "n \<le> articles_saved s")
      case True
      then have "process_article None (Some n) a ?s1 = (Break, ?s1)"
        by (intro process_article_break) (simp add: count_reached_Some [OF n0])
      with Cons.prems Yields True show ?thesis by auto
    next
      case False
      then have nr: "\<not> size_reached None (total_size_bytes ?s1)"
          "\<not> count_reached (Some n) (articles_saved ?s1)"
        by (simp_all add: size_reached_None count_reached_Some [OF n0])
      show ?thesis
      proof (cases "admissible a")
        case adm: False
        let ?s2 = "?s1\<lparr>articles_skipped := articles_skipped ?s1 + 1\<rparr>"
        from Cons.prems(2) Yields process_article_reject [OF nr adm]
        have "stream_loop None (Some n) dataset ?s2 = (None, s')" by simp
        from Cons.IH [OF _ this] Cons.prems(1) Yields adm show ?thesis by simp
      next
        case adm: True
        let ?s2 = "saved_state ?s1 a"
        from progress_count_ok [OF n0] obtain p
          where "progress_update None (Some n) ?s2 = Inr p" by blast
        with Cons.prems(2) Yields process_article_admit [OF nr adm]
        have l: "stream_loop None (Some n) dataset ?s2 = (None, s')" by simp
        from False have "articles_saved ?s2 \<le> n" by (simp add: saved_state_simps)
        from Cons.IH [OF this l] Yields adm show ?thesis
          by (simp add: saved_state_simps add.assoc)
      qed
    qed
  qed
qed

lemma size_loop:
  assumes t: "t \<noteq> 0"
  shows "stream_loop (Some t) None dataset s = (None, s') \<Longrightarrow>
     \<exists>new. files s' = files s @ new \<and>
       map snd new =
         map (\<lambda>a. Article (rag_of a))
           (take (length new) (filter admissible (offered dataset))) \<and>
       (\<forall>j<length new.
          real_of_int (total_size_bytes s + sum_list (take j (map content_size new)))
            < t * 1024 * 1024) \<and>
       (length new < length (filter admissible (offered dataset)) \<longrightarrow>
          t * 1024 * 1024 \<le> real_of_int (total_size_bytes s'))"
proof (induction dataset arbitrary: s)
  case Nil
  then show ?case by simp
next
  case (Cons it dataset)
  let ?adm = "\<lambda>ds. filter admissible (offered ds)"
  let ?P = "\<lambda>s0 ds new. files s' = files s0 @ new \<and>
       map snd new = map (\<lambda>a. Article (rag_of a)) (take (length new) (?adm ds)) \<and>
       (\<forall>j<length new.
          real_of_int (total_size_bytes s0 + sum_list (take j (map content_size new)))
            < t * 1024 * 1024) \<and>
       (length new < length (?adm ds) \<longrightarrow>
          t * 1024 * 1024 \<le> real_of_int (total_size_bytes s'))"
  show ?case
  proof (cases it)
    case (Raises e)
    with Cons.prems show ?thesis by simp
  next
    case (Yields a)
    let ?s1 = "s\<lparr>pulled := pulled s + 1\<rparr>"
    show ?thesis
    proof (cases "t * 1024 * 1024 \<le> real_of_int (total_size_bytes s)")
      case True
      then have "process_article (Some t) None a ?s1 = (Break, ?s1)"
        by (intro process_article_break) (simp add: size_reached_Some [OF t])
      with Cons.prems Yields have "s' = ?s1" by simp
      with True have "?P s (it # dataset) []" by simp
      then show ?thesis by blast
    next
      case False
      then have nr: "\<not> size_reached (Some t) (total_size_bytes ?s1)"
          "\<not> count_reached None (articles_saved ?s1)"
        by (simp_all add: count_reached_None size_reached_Some [OF t])
      show ?thesis
      proof (cases "admissible a")
        case adm: False
        let ?s2 = "?s1\<lparr>articles_skipped := articles_skipped ?s1 + 1\<rparr>"
        from Cons.prems Yields process_article_reject [OF nr adm]
        have "stream_loop (Some t) None dataset ?s2 = (None, s')" by simp
        from Cons.IH [OF this] obtain new where "?P ?s2 dataset new" by blast
        with Yields adm have "?P s (it # dataset) new" by simp
        then show ?thesis by blast
      next
        case adm: True
        let ?s2 = "saved_state ?s1 a"
        let ?x = "(probe (files ?s1) (clean_article_title (art_title a))
                   (clean_article_title (art_title a) @ lit ''.json'') 1, Article (rag_of a))"
        from progress_size_ok [OF t] obtain p
          where "progress_update (Some t) None ?s2 = Inr p" by blast
        with Cons.prems Yields process_article_admit [OF nr adm]
        have "stream_loop (Some t) None dataset ?s2 = (None, s')" by simp
        from Cons.IH [OF this] obtain new where n: "?P ?s2 dataset new" by blast
        have cs: "content_size ?x = estimate_size (body_of a)" by (simp add: rag_of_def)
        have 1: "files s' = files s @ (?x # new)"
          using n by (simp add: saved_state_simps)
        have 2: "map snd (?x # new) = map (\<lambda>a. Article (rag_of a))
            (take (length (?x # new)) (?adm (it # dataset)))"
          using n Yields adm by simp
        have 3: "real_of_int (total_size_bytes s + sum_list (take j (map content_size (?x # new))))
            < t * 1024 * 1024" if "j < length (?x # new)" for j
        proof (cases j)
          case 0
          with False show ?thesis by simp
        next
          case (Suc j')
          with that have "j' < length new" by simp
          with n have "real_of_int (total_size_bytes ?s2 +
              sum_list (take j' (map content_size new))) < t * 1024 * 1024" by blast
          with Suc cs show ?thesis by (simp add: saved_state_simps add.assoc)
        qed
        have 4: "length (?x # new) < length (?adm (it # dataset)) \<longrightarrow>
            t * 1024 * 1024 \<le> real_of_int (total_size_bytes s')"
          using n Yields adm by simp
        from 1 2 3 4 have "?P s (it # dataset) (?x # new)" by blast
        then show ?thesis by blast
      qed
    qed
  qed
qed

lemma final_statistics_eq:
  "final_statistics s output_dir language =
     Inr \<lparr>stats_articles_saved = articles_saved s,
          stats_articles_skipped = articles_skipped s,
          stats_total_size_mb = real_of_int (total_size_bytes s) / (1024 * 1024),
          stats_average_article_size_kb =
            (if articles_saved s > 0
             then real_of_int (total_size_bytes s) / real_of_int (articles_saved s) / 1024
             else 0),
          stats_output_directory = output_dir,
          stats_language = language\<rparr>"
  by (simp add: final_statistics_def ebind_def truediv_def)

lemma fetch_loop:
  assumes "(size_mb = None) \<noteq> (article_count = None)"
    and "hub (lit ''20231101.'' @ language) split = Some dataset"
    and "stream_loop size_mb article_count dataset (initial_state (mkdir w)) = (r, s)"
  shows "fetch_wikipedia_dataset hub w output_dir size_mb article_count language split =
           (case r of Some e \<Rightarrow> Inl e | None \<Rightarrow> final_statistics s output_dir language,
            world_of s)"
  using assms by (cases r) (auto simp: fetch_wikipedia_dataset_def Let_def)

lemma initial_state_simps:
  "total_size_bytes (initial_state (mkdir w)) = 0"
  "articles_saved (initial_state (mkdir w)) = 0"
  "articles_skipped (initial_state (mkdir w)) = 0"
  "pulled (initial_state (mkdir w)) = pulls w"
  "files (initial_state (mkdir w)) = (case outdir w of None \<Rightarrow> [] | Some d \<Rightarrow> d)"
  by (simp_all add: initial_state_def mkdir_def split: option.splits)

text \<open>
  One round of the loop, as an equation that evaluates a run on a given dataset.
\<close>

lemma admissible_sample: "admissible (sample t n) \<longleftrightarrow> 500 \<le> n"
  by (auto simp: admissible_def sample_def strip_replicate py_isspace_def)

lemma body_of_sample: "body_of (sample t n) = replicate n 97"
  by (simp add: body_of_def sample_def)

lemma size_sample: "estimate_size (body_of (sample t n)) = int n"
  by (simp add: body_of_sample estimate_size_replicate utf8_width_def)

lemma stream_loop_Yields:
  "stream_loop size_mb article_count (Yields a # dataset) s =
     (if size_reached size_mb (total_size_bytes s) \<or>
         count_reached article_count (articles_saved s)
      then (None, s\<lparr>pulled := pulled s + 1\<rparr>)
      else if \<not> admissible a
      then stream_loop size_mb article_count dataset
             (s\<lparr>pulled := pulled s + 1, articles_skipped := articles_skipped s + 1\<rparr>)
      else case progress_update size_mb article_count
                  (saved_state (s\<lparr>pulled := pulled s + 1\<rparr>) a) of
             Inl e \<Rightarrow> (Some e, saved_state (s\<lparr>pulled := pulled s + 1\<rparr>) a)
           | Inr p \<Rightarrow> stream_loop size_mb article_count dataset
                        (saved_state (s\<lparr>pulled := pulled s + 1\<rparr>) a))"
proof -
  let ?s1 = "s\<lparr>pulled := pulled s + 1\<rparr>"
  show ?thesis
  proof (cases "size_reached size_mb (total_size_bytes s) \<or>
         count_reached article_count (articles_saved s)")
    case True
    then have "process_article size_mb article_count a ?s1 = (Break, ?s1)"
      by (intro process_article_break) simp
    with True show ?thesis by simp
  next
    case False
    then have nr: "\<not> size_reached size_mb (total_size_bytes ?s1)"
        "\<not> count_reached article_count (articles_saved ?s1)" by simp_all
    show ?thesis
    proof (cases "admissible a")
      case True
      with False process_article_admit [OF nr True] show ?thesis
        by (simp split: sum.splits)
    next
      case adm: False
      with False process_article_reject [OF nr adm] show ?thesis
        by simp
    qed
  qed
qed

lemmas run_simps =
  fetch_wikipedia_dataset_def Let_def stream_loop_Yields initial_state_simps
  saved_state_simps admissible_sample size_sample final_statistics_eq
  size_reached_def count_reached_def truthy_float_def truthy_int_def target_size_bytes_def
  progress_update_def truediv_opt_def truediv_def ebind_def world_of_def

subsection \<open>File names\<close>

lemma clean_article_title_map:
  "clean_article_title title = map (\<lambda>c. if c \<in> set unsafe_chars then 95 else c) title"
  by (simp add: clean_article_title_def unsafe_chars_def py_replace_def)

lemma probe_first_free:
  "exists d filename \<Longrightarrow>
     \<exists>k\<ge>counter. probe d t filename counter = suffixed t k \<and>
         (\<forall>j. counter \<le> j \<and> j < k \<longrightarrow> exists d (suffixed t j))"
proof (induction d t filename counter rule: probe.induct)
  case (1 d t filename counter)
  show ?case
  proof (cases "exists d (suffixed t counter)")
    case True
    from "1.IH" [OF "1.prems" True] obtain k where k: "counter + 1 \<le> k"
        "probe d t (suffixed t counter) (counter + 1) = suffixed t k"
        "\<forall>j. counter + 1 \<le> j \<and> j < k \<longrightarrow> exists d (suffixed t j)" by blast
    have "\<forall>j. counter \<le> j \<and> j < k \<longrightarrow> exists d (suffixed t j)"
    proof (intro allI impI)
      fix j assume "counter \<le> j \<and> j < k"
      then have "j = counter \<or> (counter + 1 \<le> j \<and> j < k)" by auto
      with True k(3) show "exists d (suffixed t j)" by blast
    qed
    moreover from k(1) have "counter \<le> k" by simp
    ultimately show ?thesis using k(2) "1.prems" by (auto simp: probe_taken)
  next
    case False
    with "1.prems" have "probe d t filename counter = suffixed t counter"
      by (simp add: probe_taken probe_free)
    then show ?thesis by auto
  qed
qed

lemma saved_state_free_name:
  "files (saved_state s a) =
     files s @ [(free_name (files s) (art_title a), Article (rag_of a))]"
  by (simp add: saved_state_simps free_name_def)

lemma exists_write_file:
  "exists (write_file d filename c) f \<longleftrightarrow> f = filename \<or> exists d f"
  by (auto simp: exists_def write_file_def AList.dom_update)

lemma suffixed_not_base: "suffixed t k \<noteq> t @ lit ''.json''"
  by (simp add: suffixed_def lit_def)

lemma title_sample: "art_title (sample t n) = lit t"
  by (simp add: sample_def)

lemma str_of_nat_digits:
  "str_of_nat (Suc 0) = [49]" "str_of_nat (Suc (Suc 0)) = [50]"
  by (simp_all add: str_of_nat.simps)

lemmas name_simps =
  free_name_def probe_free probe_taken exists_def write_file_def suffixed_def lit_def
  clean_article_title_def unsafe_chars_def py_replace_def title_sample str_of_nat_digits

subsection \<open>Trimming and byte sizes\<close>

lemma estimate_size_utf8_bytes:
  "estimate_size s = int (length (concat (map utf8_bytes s)))"
  by (induction s) (simp_all add: estimate_size_def utf8_width_def utf8_bytes_def)

lemma strip_padded:
  assumes "\<forall>c\<in>set pre. py_isspace c" and "\<forall>c\<in>set post. py_isspace c"
    and "body \<noteq> []" and "\<not> py_isspace (hd body)" and "\<not> py_isspace (last body)"
  shows "strip (pre @ body @ post) = body"
proof -
  from assms(1) have "dropWhile py_isspace (pre @ body @ post) = dropWhile py_isspace (body @ post)"
    by (simp add: dropWhile_append2)
  also from assms(3,4) have "\<dots> = body @ post" by (cases body) simp_all
  finally have 1: "dropWhile py_isspace (pre @ body @ post) = body @ post" .
  have "dropWhile py_isspace (rev post @ rev body) = dropWhile py_isspace (rev body)"
    using assms(2) by (intro dropWhile_append2) auto
  then have "dropWhile py_isspace (rev (body @ post)) = dropWhile py_isspace (rev body)"
    by simp
  also from assms(3,5) have "\<dots> = rev body"
    by (cases "rev body") (simp_all add: last_rev [symmetric] hd_rev)
  finally show ?thesis by (simp add: strip_def 1)
qed

lemma strip_decompose:
  "\<exists>pre post. s = pre @ strip s @ post \<and>
     (\<forall>c\<in>set pre. py_isspace c) \<and> (\<forall>c\<in>set post. py_isspace c)"
proof -
  let ?ys = "dropWhile py_isspace s"
  let ?pre = "takeWhile py_isspace s"
  let ?post = "rev (takeWhile py_isspace (rev ?ys))"
  have "rev (takeWhile py_isspace (rev ?ys) @ dropWhile py_isspace (rev ?ys)) = rev (rev ?ys)"
    by (simp only: takeWhile_dropWhile_id)
  then have "?ys = strip s @ ?post"
    by (simp only: rev_append rev_rev_ident strip_def)
  moreover have "s = ?pre @ ?ys" by simp
  ultimately have "s = ?pre @ strip s @ ?post" by simp
  moreover have "\<forall>c\<in>set ?pre. py_isspace c" by (auto dest: set_takeWhileD)
  moreover have "\<forall>c\<in>set ?post. py_isspace c" by (auto dest: set_takeWhileD)
  ultimately show ?thesis by blast
qed

lemma strip_ends:
  assumes "strip s \<noteq> []"
  shows "\<not> py_isspace (hd (strip s))" "\<not> py_isspace (last (strip s))"
proof -
  let ?ys = "dropWhile py_isspace s"
  let ?zs = "dropWhile py_isspace (rev ?ys)"
  from assms have z: "?zs \<noteq> []" by (simp add: strip_def)
  then have "\<not> py_isspace (hd ?zs)" by (rule hd_dropWhile)
  with z show "\<not> py_isspace (last (strip s))" by (simp add: strip_def last_rev)
  have "?ys = [] \<Longrightarrow> ?zs = []" by (simp only: rev.simps dropWhile.simps)
  with z have y: "?ys \<noteq> []" by blast
  then have h: "\<not> py_isspace (hd ?ys)" by (rule hd_dropWhile)
  have "rev (takeWhile py_isspace (rev ?ys) @ ?zs) = rev (rev ?ys)"
    by (simp only: takeWhile_dropWhile_id)
  then have "?ys = strip s @ rev (takeWhile py_isspace (rev ?ys))"
    by (simp only: rev_append rev_rev_ident strip_def)
  then have "hd ?ys = hd (strip s @ rev (takeWhile py_isspace (rev ?ys)))" by simp
  with assms have "hd ?ys = hd (strip s)" by simp
  with h show "\<not> py_isspace (hd (strip s))" by simp
qed

lemma admissible_wide_sample: "admissible (wide_sample t n) \<longleftrightarrow> 500 \<le> n"
  by (auto simp: admissible_def wide_sample_def strip_replicate py_isspace_def)

lemma size_wide_sample: "estimate_size (body_of (wide_sample t n)) = 3 * int n"
  by (simp add: body_of_def wide_sample_def estimate_size_replicate utf8_width_def)

subsection \<open>The filter and the transformer\<close>

text \<open>
  Claim C5 (filter contract). A record that reaches the filter (neither stop check
  fired) is rejected exactly when its body text is absent, or shorter than 100
  characters once trimmed, or shorter than 500 characters untrimmed. A rejected
  record adds one to the skip counter and changes nothing else: no file, no bytes,
  no saved article. Every other record is accepted: the skip counter stays, the
  count of saved articles grows by one and one file is added to the directory.
  Trimming a text removes white space at its two ends and nothing else: the text is
  its trimmed form between two runs of white space, and the trimmed form, unless
  empty, neither begins nor ends with white space.
\<close>

theorem filter_contract:
  assumes "\<not> size_reached size_mb (total_size_bytes s)"
    and "\<not> count_reached article_count (articles_saved s)"
  shows "(case process_article size_mb article_count a s of (f, s') \<Rightarrow>
           if (case art_text a of None \<Rightarrow> True
               | Some text \<Rightarrow> length (strip text) < 100 \<or> length text < 500)
           then f = Continue \<and> s' = s\<lparr>articles_skipped := articles_skipped s + 1\<rparr>
           else articles_skipped s' = articles_skipped s \<and>
                articles_saved s' = articles_saved s + 1 \<and>
                (\<exists>filename d. files s' = files s @ [(filename, Article d)])) \<and>
         (\<exists>pre post. body = pre @ strip body @ post \<and>
            (\<forall>c\<in>set pre. py_isspace c) \<and> (\<forall>c\<in>set post. py_isspace c)) \<and>
         (strip body \<noteq> [] \<longrightarrow>
            \<not> py_isspace (hd (strip body)) \<and> \<not> py_isspace (last (strip body)))"
proof (intro conjI)
  show "case process_article size_mb article_count a s of (f, s') \<Rightarrow>
           if (case art_text a of None \<Rightarrow> True
               | Some text \<Rightarrow> length (strip text) < 100 \<or> length text < 500)
           then f = Continue \<and> s' = s\<lparr>articles_skipped := articles_skipped s + 1\<rparr>
           else articles_skipped s' = articles_skipped s \<and>
                articles_saved s' = articles_saved s + 1 \<and>
                (\<exists>filename d. files s' = files s @ [(filename, Article d)])"
  proof (cases "case art_text a of None \<Rightarrow> True
               | Some text \<Rightarrow> length (strip text) < 100 \<or> length text < 500")
    case True
    then show ?thesis by (simp add: process_article_skip [OF assms])
  next
    case False
    then obtain tx where t: "art_text a = Some tx" "100 \<le> length (strip tx)"
        "500 \<le> length tx"
      by (auto split: option.splits)
    from False show ?thesis
      by (simp add: process_article_save [OF assms t convert_Some [OF t(1)]] accepted_state_def)
  qed
  show "\<exists>pre post. body = pre @ strip body @ post \<and>
            (\<forall>c\<in>set pre. py_isspace c) \<and> (\<forall>c\<in>set post. py_isspace c)"
    by (rule strip_decompose)
  show "strip body \<noteq> [] \<longrightarrow>
            \<not> py_isspace (hd (strip body)) \<and> \<not> py_isspace (last (strip body))"
    using strip_ends [of body] by blast
qed

text \<open>
  Two padded records. The first has 550 blanks before 50 letters: 600 characters
  untrimmed, 50 trimmed, and it is rejected. The second has 100 letters between 200
  blanks and 200 line feeds: 500 characters untrimmed, 100 trimmed, and it is
  accepted.
\<close>

theorem filter_contract_witness:
  "process_article None (Some 5)
     \<lparr>art_id = None, art_url = None, art_title = lit ''Blank'',
      art_text = Some (replicate 550 32 @ replicate 50 97)\<rparr>
     \<lparr>total_size_bytes = 0, articles_saved = 0, articles_skipped = 0, files = [], pulled = 1\<rparr>
   = (Continue,
      \<lparr>total_size_bytes = 0, articles_saved = 0, articles_skipped = 1, files = [], pulled = 1\<rparr>) \<and>
   strip (replicate 200 32 @ replicate 100 97 @ replicate 200 10) = replicate 100 97 \<and>
   (case process_article None (Some 5)
      \<lparr>art_id = None, art_url = None, art_title = lit ''Padded'',
       art_text = Some (replicate 200 32 @ replicate 100 97 @ replicate 200 10)\<rparr>
      \<lparr>total_size_bytes = 0, articles_saved = 0, articles_skipped = 0, files = [], pulled = 1\<rparr>
    of (f, s') \<Rightarrow>
      articles_skipped s' = 0 \<and> articles_saved s' = 1 \<and>
      (\<exists>filename d. files s' = [(filename, Article d)]))"
proof -
  let ?s = "\<lparr>total_size_bytes = 0, articles_saved = 0, articles_skipped = 0, files = [],
             pulled = 1\<rparr>"
  let ?blank = "\<lparr>art_id = None, art_url = None, art_title = lit ''Blank'',
      art_text = Some (replicate 550 32 @ replicate 50 97)\<rparr>"
  let ?padded = "\<lparr>art_id = None, art_url = None, art_title = lit ''Padded'',
       art_text = Some (replicate 200 32 @ replicate 100 97 @ replicate 200 10)\<rparr>"
  have nr: "\<not> size_reached None (total_size_bytes ?s)"
      "\<not> count_reached (Some 5) (articles_saved ?s)"
    by (simp_all add: size_reached_def count_reached_def truthy_float_def truthy_int_def)
  have 1: "strip (replicate 550 32 @ replicate 50 97) = replicate 50 97"
    using strip_padded [of "replicate 550 32" "[]" "replicate 50 97"]
    by (simp add: py_isspace_def)
  have 2: "strip (replicate 200 32 @ replicate 100 97 @ replicate 200 10) = replicate 100 97"
    using strip_padded [of "replicate 200 32" "replicate 200 10" "replicate 100 97"]
    by (simp add: py_isspace_def)
  from filter_contract [where a = ?blank and body = "[]", OF nr, THEN conjunct1]
  have a: "process_article None (Some 5) ?blank ?s =
      (Continue, ?s\<lparr>articles_skipped := articles_skipped ?s + 1\<rparr>)"
    by (simp add: 1 split: prod.splits)
  from filter_contract [where a = ?padded and body = "[]", OF nr, THEN conjunct1]
  have b: "case process_article None (Some 5) ?padded ?s of (f, s') \<Rightarrow>
      articles_skipped s' = 0 \<and> articles_saved s' = 1 \<and>
      (\<exists>filename d. files s' = [(filename, Article d)])"
    by (simp add: 2 split: prod.splits)
  from a 2 b show ?thesis by simp
qed

text \<open>
  Claim C6 (transformer contract). For every accepted record the document that is
  written keeps the title and the body text of the record as they are, has no
  categories, and has the record's url and id, each the empty string when the
  record lacks it.
\<close>

theorem transformer_contract:
  assumes "\<not> size_reached size_mb (total_size_bytes s)"
    and "\<not> count_reached article_count (articles_saved s)"
    and "art_text a = Some text" and "100 \<le> length (strip text)" and "500 \<le> length text"
  shows "\<exists>filename d.
           convert_to_rag_format a = Inr d \<and>
           files (snd (process_article size_mb article_count a s)) =
             files s @ [(filename, Article d)] \<and>
           doc_title d = art_title a \<and> doc_content d = text \<and>
           md_categories (doc_metadata d) = [] \<and>
           md_url (doc_metadata d) = (case art_url a of None \<Rightarrow> [] | Some u \<Rightarrow> u) \<and>
           md_id (doc_metadata d) = (case art_id a of None \<Rightarrow> [] | Some i \<Rightarrow> i)"
proof -
  let ?d = "\<lparr>doc_title = art_title a, doc_content = text,
            doc_metadata = \<lparr>md_categories = [], md_url = get_or_empty (art_url a),
                            md_id = get_or_empty (art_id a)\<rparr>\<rparr>"
  have c: "convert_to_rag_format a = Inr ?d" using assms(3) by (rule convert_Some)
  have "files (snd (process_article size_mb article_count a s)) =
          files (accepted_state s a text ?d)"
    by (simp add: process_article_save [OF assms c])
  then show ?thesis using c
    by (simp add: accepted_state_def get_or_empty_def)
qed

theorem transformer_contract_witness:
  "\<exists>filename.
     files (snd (process_article None (Some 5)
       \<lparr>art_id = Some (lit ''12''), art_url = None, art_title = lit ''A/B'',
        art_text = Some (replicate 600 97)\<rparr>
       \<lparr>total_size_bytes = 0, articles_saved = 0, articles_skipped = 0, files = [], pulled = 1\<rparr>))
     = [(filename, Article \<lparr>doc_title = lit ''A/B'', doc_content = replicate 600 97,
          doc_metadata = \<lparr>md_categories = [], md_url = [], md_id = lit ''12''\<rparr>\<rparr>)]"
  using transformer_contract [of None
     "\<lparr>total_size_bytes = 0, articles_saved = 0, articles_skipped = 0, files = [], pulled = 1\<rparr>"
     "Some 5"
     "\<lparr>art_id = Some (lit ''12''), art_url = None, art_title = lit ''A/B'',
        art_text = Some (replicate 600 97)\<rparr>" "replicate 600 97"]
  by (auto simp add: size_reached_def count_reached_def truthy_float_def truthy_int_def
        strip_replicate py_isspace_def convert_to_rag_format_def get_or_empty_def)

subsection \<open>Validation of the targets\<close>

text \<open>
  Claim C7 (mutual exclusion of the targets). With both targets set, and with
  neither, \<open>fetch_wikipedia_dataset\<close> raises a \<^verbatim>\<open>ValueError\<close> and leaves the world as
  it found it: no output directory is made and no record is pulled.
\<close>

theorem config_mutual_exclusion:
  "fetch_wikipedia_dataset hub w output_dir (Some size_mb) (Some article_count) language split
     = (Inl (ValueError ''Cannot specify both --size-mb and --articles''), w) \<and>
   fetch_wikipedia_dataset hub w output_dir None None language split
     = (Inl (ValueError ''Must specify either --size-mb or --articles''), w)"
  by (simp add: fetch_wikipedia_dataset_def)

theorem config_mutual_exclusion_witness:
  "fetch_wikipedia_dataset (\<lambda>name split. Some []) \<lparr>outdir = None, pulls = 0\<rparr> (lit ''data'')
     (Some 10) (Some 2000) (lit ''simple'') (lit ''train'')
     = (Inl (ValueError ''Cannot specify both --size-mb and --articles''),
        \<lparr>outdir = None, pulls = 0\<rparr>) \<and>
   fetch_wikipedia_dataset (\<lambda>name split. Some []) \<lparr>outdir = None, pulls = 0\<rparr> (lit ''data'')
     None None (lit ''simple'') (lit ''train'')
     = (Inl (ValueError ''Must specify either --size-mb or --articles''),
        \<lparr>outdir = None, pulls = 0\<rparr>)"
  using config_mutual_exclusion [of "\<lambda>name split. Some []" "\<lparr>outdir = None, pulls = 0\<rparr>"
      "lit ''data''" 10 2000 "lit ''simple''" "lit ''train''"]
  by simp

subsection \<open>The final statistics\<close>

text \<open>
  Claim C9 (the guard of the average size). The final statistics never raise: with
  no article saved the average size is 0, the division being skipped, and with at
  least one it is the total of bytes divided by the number of saved articles and
  by 1024.
\<close>

theorem average_size_guard:
  "\<exists>st. final_statistics s output_dir language = Inr st \<and>
        (articles_saved s = 0 \<longrightarrow> stats_average_article_size_kb st = 0) \<and>
        (1 \<le> articles_saved s \<longrightarrow>
           stats_average_article_size_kb st =
             real_of_int (total_size_bytes s) / real_of_int (articles_saved s) / 1024)"
  by (simp add: final_statistics_def ebind_def truediv_def)

theorem average_size_guard_witness:
  "(\<exists>st. final_statistics
            \<lparr>total_size_bytes = 0, articles_saved = 0, articles_skipped = 3, files = [],
             pulled = 3\<rparr> (lit ''data'') (lit ''simple'') = Inr st \<and>
          stats_average_article_size_kb st = 0) \<and>
   (\<exists>st. final_statistics
            \<lparr>total_size_bytes = 4096, articles_saved = 2, articles_skipped = 0, files = [],
             pulled = 2\<rparr> (lit ''data'') (lit ''simple'') = Inr st \<and>
          stats_average_article_size_kb st = 2)"
  using average_size_guard [of
      "\<lparr>total_size_bytes = 0, articles_saved = 0, articles_skipped = 3, files = [], pulled = 3\<rparr>"
      "lit ''data''" "lit ''simple''"]
    average_size_guard [of
      "\<lparr>total_size_bytes = 4096, articles_saved = 2, articles_skipped = 0, files = [], pulled = 2\<rparr>"
      "lit ''data''" "lit ''simple''"]
  by simp

subsection \<open>The budgets\<close>

text \<open>
  Claim C2 (the count budget is exact). A run with a count target \<open>n > 0\<close>, on a
  dataset that yields at least \<open>n\<close> admissible records, that completes (it returns
  its statistics) has saved exactly \<open>n\<close> articles, and the output directory holds
  exactly \<open>n\<close> files more than before, the earlier ones untouched.
\<close>

theorem count_budget_exact:
  assumes "0 < n"
    and "hub (lit ''20231101.'' @ language) split = Some dataset"
    and "n \<le> int (length (filter admissible (offered dataset)))"
    and "fst (fetch_wikipedia_dataset hub w output_dir None (Some n) language split) = Inr st"
  shows "stats_articles_saved st = n \<and>
         (\<exists>new. outdir (snd (fetch_wikipedia_dataset hub w output_dir None (Some n)
                               language split)) =
                  Some ((case outdir w of None \<Rightarrow> [] | Some d \<Rightarrow> d) @ new) \<and>
                int (length new) = n)"
proof -
  obtain r s where l: "stream_loop None (Some n) dataset (initial_state (mkdir w)) = (r, s)"
    by (cases "stream_loop None (Some n) dataset (initial_state (mkdir w))")
  have f: "fetch_wikipedia_dataset hub w output_dir None (Some n) language split =
      (case r of Some e \<Rightarrow> Inl e | None \<Rightarrow> final_statistics s output_dir language, world_of s)"
    using fetch_loop [where hub = hub and size_mb = None and article_count = "Some n"
        and output_dir = output_dir, OF _ assms(2) l] by simp
  with assms(4) have r: "r = None" and st: "final_statistics s output_dir language = Inr st"
    by (auto split: option.splits)
  from count_loop [OF assms(1) _ l [unfolded r]] assms(1,3)
  have saved: "articles_saved s = n" by (simp add: initial_state_simps)
  from loop_accounting [OF l] obtain new
    where "files s = (case outdir w of None \<Rightarrow> [] | Some d \<Rightarrow> d) @ new"
      and "articles_saved s = int (length new)"
    by (auto simp: initial_state_simps)
  with saved st f show ?thesis
    by (auto simp: final_statistics_eq world_of_def)
qed

text \<open>
  Six records, two of them too short, and a target of three articles: three files
  are written, two records are skipped, and the sixth record is never read.
\<close>

theorem count_budget_exact_witness:
  "fst (fetch_wikipedia_dataset
          (\<lambda>name split. Some [Yields (sample ''A'' 600), Yields (sample ''B'' 50),
                               Yields (sample ''C'' 600), Yields (sample ''D'' 50),
                               Yields (sample ''E'' 600), Yields (sample ''F'' 600)])
          \<lparr>outdir = None, pulls = 0\<rparr> (lit ''data'') None (Some 3) (lit ''simple'')
          (lit ''train''))
     = Inr \<lparr>stats_articles_saved = 3, stats_articles_skipped = 2,
            stats_total_size_mb = 1800 / (1024 * 1024),
            stats_average_article_size_kb = 1800 / 3 / 1024,
            stats_output_directory = lit ''data'', stats_language = lit ''simple''\<rparr> \<and>
   (\<exists>new. outdir (snd (fetch_wikipedia_dataset
          (\<lambda>name split. Some [Yields (sample ''A'' 600), Yields (sample ''B'' 50),
                               Yields (sample ''C'' 600), Yields (sample ''D'' 50),
                               Yields (sample ''E'' 600), Yields (sample ''F'' 600)])
          \<lparr>outdir = None, pulls = 0\<rparr> (lit ''data'') None (Some 3) (lit ''simple'')
          (lit ''train''))) = Some new \<and> length new = 3)"
proof -
  let ?hub = "\<lambda>name split :: pystr. Some [Yields (sample ''A'' 600), Yields (sample ''B'' 50),
                               Yields (sample ''C'' 600), Yields (sample ''D'' 50),
                               Yields (sample ''E'' 600), Yields (sample ''F'' 600)]"
  let ?w = "\<lparr>outdir = None, pulls = 0\<rparr>"
  have r: "fst (fetch_wikipedia_dataset ?hub ?w (lit ''data'') None (Some 3) (lit ''simple'')
          (lit ''train''))
     = Inr \<lparr>stats_articles_saved = 3, stats_articles_skipped = 2,
            stats_total_size_mb = 1800 / (1024 * 1024),
            stats_average_article_size_kb = 1800 / 3 / 1024,
            stats_output_directory = lit ''data'', stats_language = lit ''simple''\<rparr>"
    by (simp add: run_simps del: stream_loop.simps(3))
  from count_budget_exact [of 3 ?hub "lit ''simple''" "lit ''train''" _ ?w "lit ''data''", OF _ _ _ r]
  show ?thesis using r by (simp add: admissible_sample)
qed

text \<open>
  Claim C3 (the byte budget is exact). A completed run with a byte target of
  \<open>size_mb\<close> megabytes, \<open>size_mb\<close> not zero, has written the documents of the first
  admissible records of the dataset, in order, and
  \<^item> the accumulated size it reports is the sum of \<open>estimate_size\<close> of the content
    fields of the documents written;
  \<^item> every document was written while the bytes accumulated before it were below
    \<open>size_mb * 2\<^sup>2\<^sup>0\<close>, so none follows the one that reaches the target;
  \<^item> if an admissible record was left unwritten, the target has been reached;
  \<^item> the size a document counts for is the number of bytes of the UTF-8 encoding of
    its content field.
  A zero target is the degenerate case of claim C10; a negative one is reached from
  the start, and nothing is written.
\<close>

theorem byte_budget_exact:
  assumes "size_mb \<noteq> 0"
    and "hub (lit ''20231101.'' @ language) split = Some dataset"
    and "fst (fetch_wikipedia_dataset hub w output_dir (Some size_mb) None language split) = Inr st"
  shows "(\<exists>new. outdir (snd (fetch_wikipedia_dataset hub w output_dir (Some size_mb) None
                         language split)) =
                 Some ((case outdir w of None \<Rightarrow> [] | Some d \<Rightarrow> d) @ new) \<and>
               map snd new =
                 map (\<lambda>a. Article (rag_of a))
                   (take (length new) (filter admissible (offered dataset))) \<and>
               stats_total_size_mb st =
                 real_of_int (sum_list (map content_size new)) / (1024 * 1024) \<and>
               (\<forall>j<length new.
                  real_of_int (sum_list (take j (map content_size new)))
                    < size_mb * 1024 * 1024) \<and>
               (length new < length (filter admissible (offered dataset)) \<longrightarrow>
                  size_mb * 1024 * 1024 \<le> real_of_int (sum_list (map content_size new)))) \<and>
         content_size (filename, Article d) =
           int (length (concat (map utf8_bytes (doc_content d))))"
proof -
  let ?sz = "Some size_mb"
  obtain r s where l: "stream_loop ?sz None dataset (initial_state (mkdir w)) = (r, s)"
    by (cases "stream_loop ?sz None dataset (initial_state (mkdir w))")
  have f: "fetch_wikipedia_dataset hub w output_dir ?sz None language split =
      (case r of Some e \<Rightarrow> Inl e | None \<Rightarrow> final_statistics s output_dir language, world_of s)"
    using fetch_loop [where hub = hub and size_mb = ?sz and article_count = None
        and output_dir = output_dir, OF _ assms(2) l] by simp
  with assms(3) have r: "r = None" and st: "final_statistics s output_dir language = Inr st"
    by (auto split: option.splits)
  from size_loop [OF assms(1) l [unfolded r]] obtain new
    where n1: "files s = (case outdir w of None \<Rightarrow> [] | Some d \<Rightarrow> d) @ new"
      and n2: "map snd new = map (\<lambda>a. Article (rag_of a))
                   (take (length new) (filter admissible (offered dataset)))"
      and n3: "\<forall>j<length new.
                  real_of_int (sum_list (take j (map content_size new)))
                    < size_mb * 1024 * 1024"
      and n4: "length new < length (filter admissible (offered dataset)) \<longrightarrow>
                  size_mb * 1024 * 1024 \<le> real_of_int (total_size_bytes s)"
    by (auto simp: initial_state_simps)
  from loop_accounting [OF l] obtain new'
    where "files s = (case outdir w of None \<Rightarrow> [] | Some d \<Rightarrow> d) @ new'"
      and t': "total_size_bytes s = sum_list (map content_size new')"
    by (auto simp: initial_state_simps)
  with n1 have t: "total_size_bytes s = sum_list (map content_size new)" by simp
  from st have "stats_total_size_mb st =
      real_of_int (sum_list (map content_size new)) / (1024 * 1024)"
    by (auto simp: final_statistics_eq t)
  with n1 n2 n3 n4 f have "\<exists>new. outdir (snd (fetch_wikipedia_dataset hub w output_dir
                 (Some size_mb) None language split)) =
                 Some ((case outdir w of None \<Rightarrow> [] | Some d \<Rightarrow> d) @ new) \<and>
               map snd new =
                 map (\<lambda>a. Article (rag_of a))
                   (take (length new) (filter admissible (offered dataset))) \<and>
               stats_total_size_mb st =
                 real_of_int (sum_list (map content_size new)) / (1024 * 1024) \<and>
               (\<forall>j<length new.
                  real_of_int (sum_list (take j (map content_size new)))
                    < size_mb * 1024 * 1024) \<and>
               (length new < length (filter admissible (offered dataset)) \<longrightarrow>
                  size_mb * 1024 * 1024 \<le> real_of_int (sum_list (map content_size new)))"
    by (auto simp: world_of_def t)
  moreover have "content_size (filename, Article d) =
           int (length (concat (map utf8_bytes (doc_content d))))"
    by (simp add: estimate_size_utf8_bytes)
  ultimately show ?thesis by blast
qed

text \<open>
  A target of 2048 bytes and bodies of 600 ideographs, 1800 bytes each: the second
  document written reaches the target, and the last admissible record is left
  unwritten. Counted in characters, the three bodies would all have been written.
\<close>

theorem byte_budget_exact_witness:
  "fst (fetch_wikipedia_dataset
          (\<lambda>name split. Some [Yields (wide_sample ''A'' 600), Yields (sample ''B'' 50),
                               Yields (wide_sample ''C'' 600), Yields (wide_sample ''D'' 600)])
          \<lparr>outdir = None, pulls = 0\<rparr> (lit ''data'') (Some (1 / 512)) None (lit ''simple'')
          (lit ''train''))
     = Inr \<lparr>stats_articles_saved = 2, stats_articles_skipped = 1,
            stats_total_size_mb = 3600 / (1024 * 1024),
            stats_average_article_size_kb = 3600 / 2 / 1024,
            stats_output_directory = lit ''data'', stats_language = lit ''simple''\<rparr> \<and>
   (\<exists>new. outdir (snd (fetch_wikipedia_dataset
          (\<lambda>name split. Some [Yields (wide_sample ''A'' 600), Yields (sample ''B'' 50),
                               Yields (wide_sample ''C'' 600), Yields (wide_sample ''D'' 600)])
          \<lparr>outdir = None, pulls = 0\<rparr> (lit ''data'') (Some (1 / 512)) None (lit ''simple'')
          (lit ''train''))) = Some new \<and>
      map snd new =
        map (\<lambda>a. Article (rag_of a))
          (take (length new) [wide_sample ''A'' 600, wide_sample ''C'' 600,
                              wide_sample ''D'' 600]) \<and>
      real_of_int (sum_list (map content_size new)) = 3600 \<and>
      (\<forall>j<length new. real_of_int (sum_list (take j (map content_size new))) < 2048) \<and>
      (length new < 3 \<longrightarrow> 2048 \<le> real_of_int (sum_list (map content_size new)))) \<and>
   content_size (lit ''A.json'', Article (rag_of (wide_sample ''A'' 1))) = 3 \<and>
   utf8_bytes 0x4E2D = [0xE4, 0xB8, 0xAD]"
proof -
  let ?hub = "\<lambda>name split :: pystr. Some [Yields (wide_sample ''A'' 600), Yields (sample ''B'' 50),
                               Yields (wide_sample ''C'' 600), Yields (wide_sample ''D'' 600)]"
  let ?w = "\<lparr>outdir = None, pulls = 0\<rparr>"
  have r: "fst (fetch_wikipedia_dataset ?hub ?w (lit ''data'') (Some (1 / 512)) None
          (lit ''simple'') (lit ''train''))
     = Inr \<lparr>stats_articles_saved = 2, stats_articles_skipped = 1,
            stats_total_size_mb = 3600 / (1024 * 1024),
            stats_average_article_size_kb = 3600 / 2 / 1024,
            stats_output_directory = lit ''data'', stats_language = lit ''simple''\<rparr>"
    by (simp add: run_simps admissible_wide_sample size_wide_sample del: stream_loop.simps(3))
  have b: "utf8_bytes 0x4E2D = [0xE4, 0xB8, 0xAD]"
    by (simp add: utf8_bytes_def)
  have d: "doc_content (rag_of (wide_sample ''A'' n)) = replicate n 0x4E2D" for n
    by (simp add: rag_of_def body_of_def wide_sample_def)
  have nz: "(1 / 512 :: real) \<noteq> 0" by simp
  note T = byte_budget_exact [of "1 / 512" ?hub "lit ''simple''" "lit ''train''" _ ?w
      "lit ''data''" _ "lit ''A.json''" "rag_of (wide_sample ''A'' 1)", OF nz refl r]
  from T have "content_size (lit ''A.json'', Article (rag_of (wide_sample ''A'' 1))) =
      int (length (concat (map utf8_bytes (doc_content (rag_of (wide_sample ''A'' 1))))))"
    by blast
  then have c: "content_size (lit ''A.json'', Article (rag_of (wide_sample ''A'' 1))) = 3"
    by (simp add: d b del: content_size.simps)
  from T have "\<exists>new. outdir (snd (fetch_wikipedia_dataset ?hub ?w (lit ''data'') (Some (1 / 512))
          None (lit ''simple'') (lit ''train''))) = Some new \<and>
      map snd new =
        map (\<lambda>a. Article (rag_of a))
          (take (length new) [wide_sample ''A'' 600, wide_sample ''C'' 600,
                              wide_sample ''D'' 600]) \<and>
      real_of_int (sum_list (map content_size new)) = 3600 \<and>
      (\<forall>j<length new. real_of_int (sum_list (take j (map content_size new))) < 2048) \<and>
      (length new < 3 \<longrightarrow> 2048 \<le> real_of_int (sum_list (map content_size new)))"
    by (simp add: admissible_sample admissible_wide_sample numeral_3_eq_3)
  with r c b show ?thesis by blast
qed

subsection \<open>The stop check and the pull\<close>

text \<open>
  Claim C4 as it is written fails. With a target of one article, the first record
  is saved and the target is met after one pull; on a dataset of two records the
  second record is pulled all the same, before the stop check ends the loop.
\<close>

theorem no_extra_pull_counterexample:
  "count_reached (Some 1)
     (articles_saved (snd (stream_loop None (Some 1) [Yields (sample ''A'' 600)]
        \<lparr>total_size_bytes = 0, articles_saved = 0, articles_skipped = 0, files = [],
         pulled = 0\<rparr>))) \<and>
   pulled (snd (stream_loop None (Some 1) [Yields (sample ''A'' 600)]
        \<lparr>total_size_bytes = 0, articles_saved = 0, articles_skipped = 0, files = [],
         pulled = 0\<rparr>)) = 1 \<and>
   pulled (snd (stream_loop None (Some 1) [Yields (sample ''A'' 600), Yields (sample ''B'' 600)]
        \<lparr>total_size_bytes = 0, articles_saved = 0, articles_skipped = 0, files = [],
         pulled = 0\<rparr>)) = 2"
  by (simp add: run_simps del: stream_loop.simps(3))

text \<open>
  Claim C4, as amended. The stop checks stand at the top of the loop body, and the
  \<^verbatim>\<open>for\<close> statement has pulled the record by then. Once a budget is met, the dataset
  is asked for one more record at most: that record is dropped (it is not filtered,
  counted or written) and the loop ends; if the pull raises, the exception
  propagates. Nothing after it is pulled.
\<close>

theorem stop_check_follows_pull:
  assumes "size_reached size_mb (total_size_bytes s) \<or>
           count_reached article_count (articles_saved s)"
  shows "stream_loop size_mb article_count [] s = (None, s) \<and>
         stream_loop size_mb article_count (Yields a # dataset) s =
           (None, s\<lparr>pulled := pulled s + 1\<rparr>) \<and>
         stream_loop size_mb article_count (Raises e # dataset) s =
           (Some e, s\<lparr>pulled := pulled s + 1\<rparr>)"
proof -
  from assms have "process_article size_mb article_count a (s\<lparr>pulled := pulled s + 1\<rparr>) =
      (Break, s\<lparr>pulled := pulled s + 1\<rparr>)"
    by (intro process_article_break) simp
  then show ?thesis by simp
qed

theorem stop_check_follows_pull_witness:
  "stream_loop None (Some 1) []
     \<lparr>total_size_bytes = 600, articles_saved = 1, articles_skipped = 0,
      files = [(lit ''A.json'', Article (rag_of (sample ''A'' 600)))], pulled = 1\<rparr>
   = (None,
      \<lparr>total_size_bytes = 600, articles_saved = 1, articles_skipped = 0,
       files = [(lit ''A.json'', Article (rag_of (sample ''A'' 600)))], pulled = 1\<rparr>) \<and>
   stream_loop None (Some 1) [Yields (sample ''B'' 600), Yields (sample ''C'' 600)]
     \<lparr>total_size_bytes = 600, articles_saved = 1, articles_skipped = 0,
      files = [(lit ''A.json'', Article (rag_of (sample ''A'' 600)))], pulled = 1\<rparr>
   = (None,
      \<lparr>total_size_bytes = 600, articles_saved = 1, articles_skipped = 0,
       files = [(lit ''A.json'', Article (rag_of (sample ''A'' 600)))], pulled = 2\<rparr>) \<and>
   stream_loop None (Some 1) [Raises KeyboardInterrupt, Yields (sample ''C'' 600)]
     \<lparr>total_size_bytes = 600, articles_saved = 1, articles_skipped = 0,
      files = [(lit ''A.json'', Article (rag_of (sample ''A'' 600)))], pulled = 1\<rparr>
   = (Some KeyboardInterrupt,
      \<lparr>total_size_bytes = 600, articles_saved = 1, articles_skipped = 0,
       files = [(lit ''A.json'', Article (rag_of (sample ''A'' 600)))], pulled = 2\<rparr>)"
  using stop_check_follows_pull [of None
      "\<lparr>total_size_bytes = 600, articles_saved = 1, articles_skipped = 0,
      files = [(lit ''A.json'', Article (rag_of (sample ''A'' 600)))], pulled = 1\<rparr>"
      "Some 1" "sample ''B'' 600" "[Yields (sample ''C'' 600)]" KeyboardInterrupt]
  by (simp add: count_reached_def truthy_int_def del: stream_loop.simps)

subsection \<open>Names that never collide\<close>

text \<open>
  Claim C1 as it is written fails in its last clause. From an empty directory, the
  records titled \<^verbatim>\<open>A_1\<close>, \<^verbatim>\<open>A\<close> and \<^verbatim>\<open>A\<close> are written as \<^verbatim>\<open>A_1.json\<close>, \<^verbatim>\<open>A.json\<close> and
  \<^verbatim>\<open>A_2.json\<close>: the two documents of the base name \<^verbatim>\<open>A\<close> give two files, and the
  second is suffixed \<^verbatim>\<open>_2\<close>, the name \<^verbatim>\<open>A_1.json\<close> being taken.
\<close>

theorem second_suffix_counterexample:
  "outdir (snd (fetch_wikipedia_dataset
      (\<lambda>name split. Some [Yields (sample ''A_1'' 600), Yields (sample ''A'' 600),
                           Yields (sample ''A'' 600)])
      \<lparr>outdir = None, pulls = 0\<rparr> (lit ''data'') None (Some 3) (lit ''simple'')
      (lit ''train'')))
   = Some [(lit ''A_1.json'', Article (rag_of (sample ''A_1'' 600))),
           (lit ''A.json'', Article (rag_of (sample ''A'' 600))),
           (lit ''A_2.json'', Article (rag_of (sample ''A'' 600)))] \<and>
   lit ''A_2.json'' \<noteq> suffixed (clean_article_title (lit ''A'')) 1"
  by (simp add: run_simps name_simps del: stream_loop.simps(3))

text \<open>
  Claim C1, as amended. The base name of a document is its title with each of the
  characters \<^verbatim>\<open>/ \ : * ? " < > |\<close> replaced by an underscore and every other character
  kept in its place. The file an accepted record is written to is \<open>free_name\<close> of the
  directory and the title: the base name followed by \<^verbatim>\<open>.json\<close> if no file has that
  name, otherwise the name of the first suffix \<^verbatim>\<open>_k\<close>, \<open>k \<ge> 1\<close>, that no file has. No
  file has the chosen name, so the write adds a file and replaces none. Two
  documents whose titles have the same base name give two distinct files; the second
  is suffixed \<^verbatim>\<open>_1\<close> when the first took the unsuffixed name and no file had the
  \<^verbatim>\<open>_1\<close> name.
\<close>

theorem collision_safe_naming:
  "clean_article_title title = map (\<lambda>c. if c \<in> set unsafe_chars then 95 else c) title \<and>
   (\<not> size_reached size_mb (total_size_bytes s) \<and>
    \<not> count_reached article_count (articles_saved s) \<and> admissible a \<longrightarrow>
      files (snd (process_article size_mb article_count a s)) =
        files s @ [(free_name (files s) (art_title a), Article (rag_of a))]) \<and>
   \<not> exists d (free_name d title) \<and>
   write_file d (free_name d title) c = d @ [(free_name d title, c)] \<and>
   (\<not> exists d (clean_article_title title @ lit ''.json'') \<longrightarrow>
      free_name d title = clean_article_title title @ lit ''.json'') \<and>
   (exists d (clean_article_title title @ lit ''.json'') \<longrightarrow>
      (\<exists>k\<ge>1. free_name d title = suffixed (clean_article_title title) k \<and>
         (\<forall>j. 1 \<le> j \<and> j < k \<longrightarrow> exists d (suffixed (clean_article_title title) j)))) \<and>
   (clean_article_title title' = clean_article_title title \<longrightarrow>
      free_name (write_file d (free_name d title) c) title' \<noteq> free_name d title \<and>
      (\<not> exists d (clean_article_title title @ lit ''.json'') \<and>
       \<not> exists d (suffixed (clean_article_title title) 1) \<longrightarrow>
         free_name d title = clean_article_title title @ lit ''.json'' \<and>
         free_name (write_file d (free_name d title) c) title' =
           suffixed (clean_article_title title) 1))"
proof -
  let ?t = "clean_article_title title"
  let ?base = "?t @ lit ''.json''"
  have 1: "clean_article_title title =
      map (\<lambda>c. if c \<in> set unsafe_chars then 95 else c) title"
    by (rule clean_article_title_map)
  have 2: "files (snd (process_article size_mb article_count a s)) =
        files s @ [(free_name (files s) (art_title a), Article (rag_of a))]"
    if "\<not> size_reached size_mb (total_size_bytes s)"
      "\<not> count_reached article_count (articles_saved s)" "admissible a"
    using process_article_admit [OF that] by (simp add: saved_state_free_name)
  have 3: "\<not> exists d (free_name d title)" for d
    by (simp add: free_name_def probe_not_exists)
  have 4: "write_file d (free_name d title) c = d @ [(free_name d title, c)]"
    by (rule write_file_new [OF 3])
  have 5: "free_name d title = ?base" if "\<not> exists d ?base" for d
    using that by (simp add: free_name_def probe_free)
  have 6: "\<exists>k\<ge>1. free_name d title = suffixed ?t k \<and>
         (\<forall>j. 1 \<le> j \<and> j < k \<longrightarrow> exists d (suffixed ?t j))" if "exists d ?base"
    using probe_first_free [OF that, of 1 ?t] by (simp add: free_name_def)
  have 7: "free_name (write_file d (free_name d title) c) title' \<noteq> free_name d title"
    if "clean_article_title title' = ?t"
  proof
    assume "free_name (write_file d (free_name d title) c) title' = free_name d title"
    then have "exists (write_file d (free_name d title) c)
        (free_name (write_file d (free_name d title) c) title')"
      by (simp add: exists_write_file)
    moreover have "\<not> exists (write_file d (free_name d title) c)
        (free_name (write_file d (free_name d title) c) title')"
      by (simp add: free_name_def probe_not_exists)
    ultimately show False by blast
  qed
  have 8: "free_name (write_file d (free_name d title) c) title' = suffixed ?t 1"
    if eq: "clean_article_title title' = ?t" and b: "\<not> exists d ?base"
      and s1: "\<not> exists d (suffixed ?t 1)"
  proof -
    let ?d1 = "write_file d ?base c"
    have f: "free_name d title = ?base" by (rule 5 [OF b])
    have e: "exists ?d1 ?base" by (simp add: exists_write_file)
    have n: "\<not> exists ?d1 (suffixed ?t 1)"
      using s1 by (simp add: exists_write_file suffixed_not_base)
    have "free_name ?d1 title' = probe ?d1 ?t (suffixed ?t 1) (1 + 1)"
      using e by (simp add: free_name_def eq probe_taken)
    also have "\<dots> = suffixed ?t 1" using n by (rule probe_free)
    finally show ?thesis by (simp add: f)
  qed
  from 1 2 3 4 5 6 7 8 show ?thesis by blast
qed

text \<open>The titles \<^verbatim>\<open>A/B\<close> and \<^verbatim>\<open>A_B\<close>, written to an empty directory.\<close>

theorem collision_safe_naming_witness:
  "clean_article_title (lit ''A/B'') = lit ''A_B'' \<and>
   clean_article_title (lit ''A_B'') = lit ''A_B'' \<and>
   free_name [] (lit ''A/B'') = lit ''A_B.json'' \<and>
   free_name (write_file [] (lit ''A_B.json'') (Article (rag_of (sample ''A/B'' 600))))
     (lit ''A_B'') = lit ''A_B_1.json''"
proof -
  have c: "clean_article_title (lit ''A/B'') = lit ''A_B''"
      "clean_article_title (lit ''A_B'') = lit ''A_B''"
    by (simp_all add: clean_article_title_def unsafe_chars_def py_replace_def lit_def)
  have n: "lit ''A_B'' @ lit ''.json'' = lit ''A_B.json''"
      "suffixed (lit ''A_B'') 1 = lit ''A_B_1.json''"
    by (simp_all add: suffixed_def lit_def str_of_nat_digits)
  have e: "\<not> exists [] (lit ''A_B.json'')" "\<not> exists [] (lit ''A_B_1.json'')"
    by (simp_all add: exists_def)
  note T = collision_safe_naming [of "lit ''A/B''" None
      "\<lparr>total_size_bytes = 0, articles_saved = 0, articles_skipped = 0, files = [],
        pulled = 1\<rparr>" "Some 2" "sample ''A/B'' 600" "[]"
      "Article (rag_of (sample ''A/B'' 600))" "lit ''A_B''", unfolded c n]
  from T e have f1: "free_name [] (lit ''A/B'') = lit ''A_B.json''" by blast
  from T e have "free_name (write_file [] (free_name [] (lit ''A/B''))
        (Article (rag_of (sample ''A/B'' 600)))) (lit ''A_B'') = lit ''A_B_1.json''"
    by blast
  with f1 c show ?thesis by simp
qed

subsection \<open>An interrupt during streaming\<close>





subsection \<open>A target of zero\<close>

lemma mod10_succ:
  fixes k :: int
  shows "(k + 1) mod 10 = (if k mod 10 = 9 then 0 else k mod 10 + 1)"
proof -
  define r where "r = k mod 10"
  have r: "0 \<le> r" "r < 10" by (simp_all add: r_def)
  have e: "(k + 1) mod 10 = (r + 1) mod 10"
    unfolding r_def by (rule mod_add_left_eq [symmetric])
  show ?thesis
  proof (cases "r = 9")
    case True
    with e show ?thesis by (simp add: r_def [symmetric])
  next
    case False
    with r have "0 \<le> r + 1" "r + 1 < 10" by linarith+
    then have "(r + 1) mod 10 = r + 1" by (rule mod_pos_pos_trivial)
    with e False show ?thesis by (simp add: r_def [symmetric])
  qed
qed

lemma degenerate_progress:
  "degenerate size_mb article_count \<Longrightarrow>
   progress_update size_mb article_count s =
     (if articles_saved s mod 10 = 0
      then Inl (if article_count = None then TypeError else ZeroDivisionError)
      else Inr None)"
  by (auto simp: degenerate_def progress_update_def truthy_float_def truediv_opt_def
        truediv_def ebind_def target_size_bytes_def)

lemma degenerate_never_reached:
  "degenerate size_mb article_count \<Longrightarrow>
   \<not> size_reached size_mb b \<and> \<not> count_reached article_count k"
  by (auto simp: degenerate_def size_reached_def count_reached_def truthy_float_def
        truthy_int_def)

lemma degenerate_step:
  assumes "degenerate size_mb article_count"
  shows "stream_loop size_mb article_count (Yields a # dataset) s =
     (if \<not> admissible a
      then stream_loop size_mb article_count dataset
             (s\<lparr>pulled := pulled s + 1, articles_skipped := articles_skipped s + 1\<rparr>)
      else if (articles_saved s + 1) mod 10 = 0
      then (Some (if article_count = None then TypeError else ZeroDivisionError),
            saved_state (s\<lparr>pulled := pulled s + 1\<rparr>) a)
      else stream_loop size_mb article_count dataset
             (saved_state (s\<lparr>pulled := pulled s + 1\<rparr>) a))"
  using degenerate_never_reached [OF assms]
  by (simp add: stream_loop_Yields degenerate_progress [OF assms] saved_state_simps
        del: stream_loop.simps(3))

lemma degenerate_loop_raises:
  assumes d: "degenerate size_mb article_count"
  shows "articles_saved s mod 10 = r \<Longrightarrow>
     10 - r \<le> int (length (filter admissible articles)) \<Longrightarrow>
     fst (stream_loop size_mb article_count (map Yields articles) s) =
       Some (if article_count = None then TypeError else ZeroDivisionError)"
proof (induction articles arbitrary: s r)
  case Nil
  from Nil(1) have "r < 10" by auto
  with Nil(2) show ?case by simp
next
  case (Cons a articles)
  let ?s1 = "s\<lparr>pulled := pulled s + 1\<rparr>"
  from Cons.prems(1) have r0: "0 \<le> r" by auto
  show ?case
  proof (cases "admissible a")
    case False
    let ?s2 = "s\<lparr>pulled := pulled s + 1, articles_skipped := articles_skipped s + 1\<rparr>"
    from Cons.prems(1) have 1: "articles_saved ?s2 mod 10 = r" by simp
    from Cons.prems(2) False have 2: "10 - r \<le> int (length (filter admissible articles))"
      by simp
    from Cons.IH [OF 1 2] False show ?thesis
      by (simp add: degenerate_step [OF d] del: stream_loop.simps(3))
  next
    case True
    show ?thesis
    proof (cases "r = 9")
      case nine: True
      with Cons.prems(1) have "(articles_saved s + 1) mod 10 = 0"
        by (simp add: mod10_succ)
      with True show ?thesis
        by (simp add: degenerate_step [OF d] del: stream_loop.simps(3))
    next
      case nine: False
      let ?s2 = "saved_state ?s1 a"
      from nine Cons.prems(1) have e: "(articles_saved s + 1) mod 10 = r + 1"
        by (simp add: mod10_succ)
      with r0 have z: "(articles_saved s + 1) mod 10 \<noteq> 0" by simp
      from e have 1: "articles_saved ?s2 mod 10 = r + 1" by (simp add: saved_state_simps)
      from Cons.prems(2) True
      have 2: "10 - (r + 1) \<le> int (length (filter admissible articles))" by simp
      from Cons.IH [OF 1 2] True z show ?thesis
        by (simp add: degenerate_step [OF d] del: stream_loop.simps(3))
    qed
  qed
qed

lemma degenerate_loop_completes:
  assumes d: "degenerate size_mb article_count"
  shows "articles_saved s mod 10 = r \<Longrightarrow>
     r + int (length (filter admissible articles)) < 10 \<Longrightarrow>
     \<exists>s'. stream_loop size_mb article_count (map Yields articles) s = (None, s') \<and>
          articles_saved s' = articles_saved s + int (length (filter admissible articles)) \<and>
          pulled s' = pulled s + length articles"
proof (induction articles arbitrary: s r)
  case Nil
  then show ?case by simp
next
  case (Cons a articles)
  let ?s1 = "s\<lparr>pulled := pulled s + 1\<rparr>"
  from Cons.prems(1) have r0: "0 \<le> r" by auto
  show ?case
  proof (cases "admissible a")
    case False
    let ?s2 = "s\<lparr>pulled := pulled s + 1, articles_skipped := articles_skipped s + 1\<rparr>"
    from Cons.prems(1) have 1: "articles_saved ?s2 mod 10 = r" by simp
    from Cons.prems(2) False have 2: "r + int (length (filter admissible articles)) < 10"
      by simp
    from Cons.IH [OF 1 2] False show ?thesis
      by (simp add: degenerate_step [OF d] del: stream_loop.simps(3))
  next
    case True
    let ?s2 = "saved_state ?s1 a"
    from Cons.prems(2) True have nine: "r \<noteq> 9"
      and 2: "r + 1 + int (length (filter admissible articles)) < 10" by simp_all
    from nine Cons.prems(1) have e: "(articles_saved s + 1) mod 10 = r + 1"
      by (simp add: mod10_succ)
    with r0 have z: "(articles_saved s + 1) mod 10 \<noteq> 0" by simp
    from e have 1: "articles_saved ?s2 mod 10 = r + 1" by (simp add: saved_state_simps)
    from Cons.IH [OF 1 2] obtain s' where
      "stream_loop size_mb article_count (map Yields articles) ?s2 = (None, s')"
      "articles_saved s' = articles_saved ?s2 + int (length (filter admissible articles))"
      "pulled s' = pulled ?s2 + length articles" by blast
    with True z show ?thesis
      by (simp add: degenerate_step [OF d] saved_state_simps del: stream_loop.simps(3))
  qed
qed

text \<open>
  Claim C10 (a target of zero). With \<open>size_mb\<close> equal to 0.0 or \<open>article_count\<close> equal
  to 0, and the other target not given, the validation passes and neither stop check
  ever fires, as the claim says. The run reaches the end of a dataset that yields
  fewer than ten admissible records: it returns its statistics, every admissible
  record saved and every record pulled. On a dataset that yields ten admissible
  records or more it does not: the progress update that follows the tenth saved
  document (lines 180 to 187) divides by \<open>article_count\<close>, which is \<^verbatim>\<open>None\<close> in the first
  case and 0 in the second, and the run ends in a \<^verbatim>\<open>TypeError\<close> or a
  \<^verbatim>\<open>ZeroDivisionError\<close>.
\<close>

theorem degenerate_target_raises:
  assumes "size_mb = Some 0 \<and> article_count = None \<or> size_mb = None \<and> article_count = Some 0"
    and "hub (lit ''20231101.'' @ language) split = Some (map Yields articles)"
  shows "\<not> size_reached size_mb b \<and> \<not> count_reached article_count k \<and>
         (length (filter admissible articles) < 10 \<longrightarrow>
            (\<exists>st. fst (fetch_wikipedia_dataset hub w output_dir size_mb article_count
                          language split) = Inr st \<and>
                  stats_articles_saved st = int (length (filter admissible articles))) \<and>
            pulls (snd (fetch_wikipedia_dataset hub w output_dir size_mb article_count
                          language split)) = pulls w + length articles) \<and>
         (10 \<le> length (filter admissible articles) \<longrightarrow>
            fst (fetch_wikipedia_dataset hub w output_dir size_mb article_count
                   language split) =
              Inl (if article_count = None then TypeError else ZeroDivisionError))"
proof -
  from assms(1) have d: "degenerate size_mb article_count" by (simp add: degenerate_def)
  from assms(1) have v: "(size_mb = None) \<noteq> (article_count = None)" by auto
  let ?s0 = "initial_state (mkdir w)"
  let ?run = "fetch_wikipedia_dataset hub w output_dir size_mb article_count language split"
  let ?n = "length (filter admissible articles)"
  have 0: "articles_saved ?s0 mod 10 = 0" by (simp add: initial_state_simps)
  have small: "(\<exists>st. fst ?run = Inr st \<and> stats_articles_saved st = int ?n) \<and>
      pulls (snd ?run) = pulls w + length articles" if "?n < 10"
  proof -
    from that have "0 + int ?n < 10" by simp
    from degenerate_loop_completes [OF d 0 this] obtain s' where
      l: "stream_loop size_mb article_count (map Yields articles) ?s0 = (None, s')"
      and a: "articles_saved s' = articles_saved ?s0 + int ?n"
      and p: "pulled s' = pulled ?s0 + length articles" by blast
    from fetch_loop [where hub = hub and size_mb = size_mb and article_count = article_count
        and output_dir = output_dir, OF v assms(2) l]
    have "?run = (final_statistics s' output_dir language, world_of s')" by simp
    with a p show ?thesis
      by (simp add: final_statistics_eq world_of_def initial_state_simps)
  qed
  have large: "fst ?run = Inl (if article_count = None then TypeError else ZeroDivisionError)"
    if "10 \<le> ?n"
  proof -
    from that have "10 - 0 \<le> int ?n" by simp
    from degenerate_loop_raises [OF d 0 this]
    have r: "fst (stream_loop size_mb article_count (map Yields articles) ?s0) =
        Some (if article_count = None then TypeError else ZeroDivisionError)" .
    obtain e s' where l: "stream_loop size_mb article_count (map Yields articles) ?s0 = (e, s')"
      by (cases "stream_loop size_mb article_count (map Yields articles) ?s0")
    from fetch_loop [where hub = hub and size_mb = size_mb and article_count = article_count
        and output_dir = output_dir, OF v assms(2) l] r l
    show ?thesis by simp
  qed
  from degenerate_never_reached [OF d, of b k] small large show ?thesis by blast
qed

text \<open>
  Ten admissible records with each of the two degenerate targets, and nine with the
  first.
\<close>

theorem degenerate_target_raises_witness:
  "fst (fetch_wikipedia_dataset
          (\<lambda>name split. Some (map Yields (replicate 10 (sample ''A'' 600))))
          \<lparr>outdir = None, pulls = 0\<rparr> (lit ''data'') (Some 0) None (lit ''simple'')
          (lit ''train'')) = Inl TypeError \<and>
   fst (fetch_wikipedia_dataset
          (\<lambda>name split. Some (map Yields (replicate 10 (sample ''A'' 600))))
          \<lparr>outdir = None, pulls = 0\<rparr> (lit ''data'') None (Some 0) (lit ''simple'')
          (lit ''train'')) = Inl ZeroDivisionError \<and>
   (\<exists>st. fst (fetch_wikipedia_dataset
          (\<lambda>name split. Some (map Yields (replicate 9 (sample ''A'' 600))))
          \<lparr>outdir = None, pulls = 0\<rparr> (lit ''data'') (Some 0) None (lit ''simple'')
          (lit ''train'')) = Inr st \<and> stats_articles_saved st = 9)"
proof -
  let ?hub = "\<lambda>n. \<lambda>name split :: pystr. Some (map Yields (replicate n (sample ''A'' 600)))"
  let ?w = "\<lparr>outdir = None, pulls = 0\<rparr>"
  have n: "length (filter admissible (replicate m (sample ''A'' 600))) = m" for m
    by (simp add: admissible_sample)
  note T = degenerate_target_raises [where language = "lit ''simple''" and split = "lit ''train''"
      and w = ?w and output_dir = "lit ''data''" and b = 0 and k = 0]
  from T [where hub = "?hub 10" and size_mb = "Some 0" and article_count = None
      and articles = "replicate 10 (sample ''A'' 600)"]
  have 1: "fst (fetch_wikipedia_dataset (?hub 10) ?w (lit ''data'') (Some 0) None (lit ''simple'')
          (lit ''train'')) = Inl TypeError"
    by (simp add: n)
  from T [where hub = "?hub 10" and size_mb = None and article_count = "Some 0"
      and articles = "replicate 10 (sample ''A'' 600)"]
  have 2: "fst (fetch_wikipedia_dataset (?hub 10) ?w (lit ''data'') None (Some 0) (lit ''simple'')
          (lit ''train'')) = Inl ZeroDivisionError"
    by (simp add: n)
  from T [where hub = "?hub 9" and size_mb = "Some 0" and article_count = None
      and articles = "replicate 9 (sample ''A'' 600)"]
  have 3: "\<exists>st. fst (fetch_wikipedia_dataset (?hub 9) ?w (lit ''data'') (Some 0) None
          (lit ''simple'') (lit ''train'')) = Inr st \<and> stats_articles_saved st = 9"
    by (simp add: n)
  from 1 2 3 show ?thesis by simp
qed

end
